theory Spec2Isabelle
  imports Complex_Main
begin

section \<open>JavaScript values used by the worker\<close>

text \<open>
  The feed engine lives in \<^verbatim>\<open>src/worker.ts\<close>.  Its functions are embedded one by one,
  together with the parts of the ECMAScript library they call (\<^verbatim>\<open>parseInt\<close>,
  \<^verbatim>\<open>String.prototype\<close> methods, \<^verbatim>\<open>Date\<close>).

  \<^item> A JavaScript string is a \<^typ>\<open>string\<close>; one \<^typ>\<open>char\<close> stands for one UTF-16 code
    unit below 256.  The raw request segments come from \<^verbatim>\<open>URL.pathname\<close>, which is
    percent-encoded ASCII.
  \<^item> A JavaScript number that is an integer or \<^verbatim>\<open>NaN\<close> is an \<^typ>\<open>int option\<close>, with
    \<^term>\<open>None\<close> for \<^verbatim>\<open>NaN\<close>.  All numbers of the engine stay far below \<open>2^53\<close>, where
    double arithmetic on integers is exact.
  \<^item> A \<^verbatim>\<open>Date\<close> object is its time value, again an \<^typ>\<open>int option\<close> (milliseconds since
    the epoch, \<^term>\<open>None\<close> for an invalid date).
  \<^item> The clock reading \<open>now\<close> (the result of \<^verbatim>\<open>new Date()\<close>) and the server's zone are
    parameters.  Every \<^verbatim>\<open>new Date()\<close> of one request reads the same instant.  The zone is
    the host's function \<^verbatim>\<open>LocalTZA(t, isUTC)\<close> of ECMA-262: the offset in milliseconds at the
    UTC time value \<open>t\<close>, or at the local time \<open>t\<close> when \<open>isUTC\<close> is false.  It may change
    with \<open>t\<close>, as it does with daylight saving time.
\<close>

type_synonym number = "int option"
type_synonym Date = "int option"

definition lt :: "number \<Rightarrow> number \<Rightarrow> bool" where
  \<comment> \<open>\<^verbatim>\<open>a < b\<close>: false as soon as one side is \<^verbatim>\<open>NaN\<close>.\<close>
  "lt a b = (case a of None \<Rightarrow> False | Some x \<Rightarrow> (case b of None \<Rightarrow> False | Some y \<Rightarrow> x < y))"

definition strictNe :: "number \<Rightarrow> number \<Rightarrow> bool" where
  \<comment> \<open>\<^verbatim>\<open>a !== b\<close>: true as soon as one side is \<^verbatim>\<open>NaN\<close>.\<close>
  "strictNe a b = (case a of None \<Rightarrow> True | Some x \<Rightarrow> (case b of None \<Rightarrow> True | Some y \<Rightarrow> x \<noteq> y))"

definition arith2 :: "(int \<Rightarrow> int \<Rightarrow> int) \<Rightarrow> number \<Rightarrow> number \<Rightarrow> number" where
  \<comment> \<open>A binary arithmetic operator: \<^verbatim>\<open>NaN\<close> in, \<^verbatim>\<open>NaN\<close> out.\<close>
  "arith2 f a b = (case a of None \<Rightarrow> None | Some x \<Rightarrow> (case b of None \<Rightarrow> None | Some y \<Rightarrow> Some (f x y)))"

subsection \<open>Strings\<close>

definition isWhiteSpace :: "char \<Rightarrow> bool" where
  \<comment> \<open>\<^verbatim>\<open>StrWhiteSpaceChar\<close>, as far as it lies below 256: TAB, LF, VT, FF, CR, SP, NBSP.\<close>
  "isWhiteSpace c = (of_char c \<in> {9, 10, 11, 12, 13, 32, 160 :: nat})"

definition digitValue :: "char \<Rightarrow> nat option" where
  \<comment> \<open>The value of a character as a digit of radix up to 36.\<close>
  "digitValue c =
     (let n = (of_char c :: nat)
      in if 48 \<le> n \<and> n \<le> 57 then Some (n - 48)
         else if 97 \<le> n \<and> n \<le> 122 then Some (n - 87)
         else if 65 \<le> n \<and> n \<le> 90 then Some (n - 55)
         else None)"

definition isRadixDigit :: "nat \<Rightarrow> char \<Rightarrow> bool" where
  "isRadixDigit R c = (case digitValue c of None \<Rightarrow> False | Some v \<Rightarrow> v < R)"

fun digitsValue :: "nat \<Rightarrow> nat \<Rightarrow> string \<Rightarrow> nat" where
  "digitsValue R acc [] = acc"
| "digitsValue R acc (c # cs) =
     digitsValue R (acc * R + (case digitValue c of None \<Rightarrow> 0 | Some v \<Rightarrow> v)) cs"

definition parseInt :: "string \<Rightarrow> nat \<Rightarrow> number" where
  \<comment> \<open>\<^verbatim>\<open>parseInt(string, radix)\<close>; radix 0 stands for an omitted radix.  Leading white
      space is skipped, a sign is read, an omitted radix (or 16) accepts a \<^verbatim>\<open>0x\<close> prefix,
      and the longest prefix of digits is the value; no digit at all gives \<^verbatim>\<open>NaN\<close>.\<close>
  "parseInt inputString radix =
     (let S0 = dropWhile isWhiteSpace inputString;
          sign = (if S0 \<noteq> [] \<and> hd S0 = CHR ''-'' then - 1 else (1 :: int));
          S1 = (if S0 \<noteq> [] \<and> (hd S0 = CHR ''+'' \<or> hd S0 = CHR ''-'') then tl S0 else S0)
      in if radix \<noteq> 0 \<and> (radix < 2 \<or> 36 < radix) then None
         else
           let stripPrefix = (radix = 0 \<or> radix = 16);
               hex = (stripPrefix \<and> (take 2 S1 = ''0x'' \<or> take 2 S1 = ''0X''));
               S2 = (if hex then drop 2 S1 else S1);
               R = (if hex then 16 else if radix = 0 then 10 else radix);
               Z = takeWhile (isRadixDigit R) S2
           in if Z = [] then None else Some (sign * int (digitsValue R 0 Z)))"

definition substring :: "string \<Rightarrow> nat \<Rightarrow> nat \<Rightarrow> string" where
  \<comment> \<open>\<^verbatim>\<open>s.substring(start, end)\<close>: both indices are clamped to the length and swapped
      when out of order.\<close>
  "substring s start end =
     (let a = min start (length s); b = min end (length s)
      in take (max a b - min a b) (drop (min a b) s))"

definition decimalDigit :: "nat \<Rightarrow> char" where
  "decimalDigit n = ''0123456789'' ! (n mod 10)"

fun toDecimal :: "nat \<Rightarrow> string" where
  "toDecimal n = (if n < 10 then [decimalDigit n] else toDecimal (n div 10) @ [decimalDigit n])"

declare toDecimal.simps [simp del]

definition NumberToString :: "int \<Rightarrow> string" where
  \<comment> \<open>\<^verbatim>\<open>String(n)\<close> and \<^verbatim>\<open>`${n}`\<close> for an integer \<open>n\<close>.\<close>
  "NumberToString n = (if n < 0 then ''-'' @ toDecimal (nat (- n)) else toDecimal (nat n))"

definition padStart :: "string \<Rightarrow> nat \<Rightarrow> char \<Rightarrow> string" where
  \<comment> \<open>\<^verbatim>\<open>s.padStart(n, c)\<close> with a one-character filler.\<close>
  "padStart s n c = replicate (n - length s) c @ s"

definition toUpperCaseChar :: "char \<Rightarrow> string" where
  \<comment> \<open>The upper-case form of one code unit below 256: ASCII and Latin-1 letters, with
      \<^verbatim>\<open>U+00DF\<close> giving \<^verbatim>\<open>SS\<close>.  The upper-case forms of \<^verbatim>\<open>U+00B5\<close> and \<^verbatim>\<open>U+00FF\<close> lie above 255
      and cannot be written in this model; both are left as they are.\<close>
  "toUpperCaseChar c =
     (let n = (of_char c :: nat)
      in if 97 \<le> n \<and> n \<le> 122 then [char_of (n - 32)]
         else if n = 223 then ''SS''
         else if 224 \<le> n \<and> n \<le> 254 \<and> n \<noteq> 247 then [char_of (n - 32)]
         else [c])"

definition toUpperCase :: "string \<Rightarrow> string" where
  "toUpperCase s = concat (map toUpperCaseChar s)"

definition hexDigit :: "nat \<Rightarrow> char" where
  "hexDigit n = ''0123456789ABCDEF'' ! (n mod 16)"

definition percentByte :: "nat \<Rightarrow> string" where
  "percentByte b = [CHR ''%'', hexDigit (b div 16), hexDigit b]"

definition uriUnreserved :: "char \<Rightarrow> bool" where
  \<comment> \<open>The characters \<^verbatim>\<open>encodeURIComponent\<close> leaves alone: letters, digits and
      \<^verbatim>\<open>- _ . ! ~ * ' ( )\<close>.\<close>
  "uriUnreserved c =
     (let n = (of_char c :: nat)
      in (48 \<le> n \<and> n \<le> 57) \<or> (65 \<le> n \<and> n \<le> 90) \<or> (97 \<le> n \<and> n \<le> 122)
         \<or> n \<in> {45, 95, 46, 33, 126, 42, 39, 40, 41})"

definition encodeURIChar :: "char \<Rightarrow> string" where
  \<comment> \<open>One code unit below 256, percent-encoded through UTF-8 (one byte below 128, two
      bytes from 128 on).\<close>
  "encodeURIChar c =
     (let n = (of_char c :: nat)
      in if uriUnreserved c then [c]
         else if n < 128 then percentByte n
         else percentByte (192 + n div 64) @ percentByte (128 + n mod 64))"

definition encodeURIComponent :: "string \<Rightarrow> string" where
  "encodeURIComponent s = concat (map encodeURIChar s)"

definition replaceAll :: "char \<Rightarrow> string \<Rightarrow> string \<Rightarrow> string" where
  \<comment> \<open>\<^verbatim>\<open>s.replace(/c/g, r)\<close> for a one-character pattern and a replacement without \<^verbatim>\<open>$\<close>.\<close>
  "replaceAll c r s = concat (map (\<lambda>x. if x = c then r else [x]) s)"

fun splitOn :: "char \<Rightarrow> string \<Rightarrow> string list" where
  "splitOn c [] = [[]]"
| "splitOn c (x # xs) =
     (if x = c then [] # splitOn c xs
      else (case splitOn c xs of [] \<Rightarrow> [[x]] | p # ps \<Rightarrow> (x # p) # ps))"

subsection \<open>Dates (ECMA-262, Date objects)\<close>

definition msPerDay :: int where
  "msPerDay = 86400000"

definition Day :: "int \<Rightarrow> int" where
  "Day t = t div msPerDay"

definition TimeWithinDay :: "int \<Rightarrow> int" where
  "TimeWithinDay t = t mod msPerDay"

definition DaysInYear :: "int \<Rightarrow> int" where
  "DaysInYear y =
     (if y mod 4 \<noteq> 0 then 365
      else if y mod 100 \<noteq> 0 then 366
      else if y mod 400 \<noteq> 0 then 365
      else 366)"

definition DayFromYear :: "int \<Rightarrow> int" where
  "DayFromYear y =
     365 * (y - 1970) + (y - 1969) div 4 - (y - 1901) div 100 + (y - 1601) div 400"

definition YearFromDay :: "int \<Rightarrow> int" where
  \<comment> \<open>ECMA-262 asks for the largest year \<open>y\<close> with \<open>DayFromYear y \<le> d\<close>.  The mean year
      of 146097/400 days gives an estimate that is off by one year at most.\<close>
  "YearFromDay d =
     (let y0 = 1970 + (400 * d) div 146097
      in if d < DayFromYear y0 then y0 - 1
         else if DayFromYear (y0 + 1) \<le> d then y0 + 1
         else y0)"

definition YearFromTime :: "int \<Rightarrow> int" where
  "YearFromTime t = YearFromDay (Day t)"

definition InLeapYear :: "int \<Rightarrow> int" where
  "InLeapYear t = (if DaysInYear (YearFromTime t) = 366 then 1 else 0)"

definition DayWithinYear :: "int \<Rightarrow> int" where
  "DayWithinYear t = Day t - DayFromYear (YearFromTime t)"

definition monthStart :: "int \<Rightarrow> int \<Rightarrow> int" where
  \<comment> \<open>The day within the year on which month \<open>m\<close> (0 to 11) begins; \<open>m = 12\<close> is the
      length of the year.\<close>
  "monthStart leap m =
     (if m = 0 then 0 else if m = 1 then 31
      else leap + [59, 90, 120, 151, 181, 212, 243, 273, 304, 334, 365] ! nat (m - 2))"

definition MonthFromTime :: "int \<Rightarrow> int" where
  "MonthFromTime t =
     (let d = DayWithinYear t; leap = InLeapYear t
      in if d < 31 then 0
         else if d < 59 + leap then 1
         else if d < 90 + leap then 2
         else if d < 120 + leap then 3
         else if d < 151 + leap then 4
         else if d < 181 + leap then 5
         else if d < 212 + leap then 6
         else if d < 243 + leap then 7
         else if d < 273 + leap then 8
         else if d < 304 + leap then 9
         else if d < 334 + leap then 10
         else 11)"

definition DateFromTime :: "int \<Rightarrow> int" where
  "DateFromTime t =
     (let d = DayWithinYear t; leap = InLeapYear t; m = MonthFromTime t
      in if m = 0 then d + 1
         else if m = 1 then d - 30
         else if m = 2 then d - 58 - leap
         else if m = 3 then d - 89 - leap
         else if m = 4 then d - 119 - leap
         else if m = 5 then d - 150 - leap
         else if m = 6 then d - 180 - leap
         else if m = 7 then d - 211 - leap
         else if m = 8 then d - 242 - leap
         else if m = 9 then d - 272 - leap
         else if m = 10 then d - 303 - leap
         else d - 333 - leap)"

definition WeekDay :: "int \<Rightarrow> int" where
  "WeekDay t = (Day t + 4) mod 7"

definition HourFromTime :: "int \<Rightarrow> int" where
  "HourFromTime t = (t div 3600000) mod 24"

definition MinFromTime :: "int \<Rightarrow> int" where
  "MinFromTime t = (t div 60000) mod 60"

definition SecFromTime :: "int \<Rightarrow> int" where
  "SecFromTime t = (t div 1000) mod 60"

definition MakeDay :: "int \<Rightarrow> int \<Rightarrow> int \<Rightarrow> int" where
  \<comment> \<open>The day number of day \<open>date\<close> of month \<open>month\<close> of \<open>year\<close>; months and days out of
      range carry over.\<close>
  "MakeDay year month date =
     (let ym = year + month div 12; mn = month mod 12
      in DayFromYear ym + monthStart (if DaysInYear ym = 366 then 1 else 0) mn + date - 1)"

definition MakeDate :: "int \<Rightarrow> int \<Rightarrow> int" where
  "MakeDate day time = day * msPerDay + time"

definition TimeClip :: "int \<Rightarrow> Date" where
  "TimeClip t = (if 8640000000000000 < \<bar>t\<bar> then None else Some t)"

type_synonym zone = "int \<Rightarrow> bool \<Rightarrow> int"

definition LocalTime :: "zone \<Rightarrow> int \<Rightarrow> int" where
  \<comment> \<open>\<^verbatim>\<open>LocalTime(t) = t + LocalTZA(t, true)\<close>: a UTC time value as local time.\<close>
  "LocalTime tz t = t + tz t True"

definition UTC :: "zone \<Rightarrow> int \<Rightarrow> int" where
  \<comment> \<open>\<^verbatim>\<open>UTC(t) = t - LocalTZA(t, false)\<close>: a local time as a UTC time value.  For a local
      time that a change of offset skips or repeats, the host answers with the offset in
      force before the change.\<close>
  "UTC tz t = t - tz t False"

definition fixedZone :: "int \<Rightarrow> zone" where
  \<comment> \<open>A zone whose offset never changes; \<open>fixedZone 0\<close> is UTC.\<close>
  "fixedZone offset = (\<lambda>t isUTC. offset)"

definition fullYear :: "int \<Rightarrow> int" where
  \<comment> \<open>The Date constructor and \<^verbatim>\<open>Date.UTC\<close> read a year from 0 to 99 as 1900 + year.\<close>
  "fullYear y = (if 0 \<le> y \<and> y \<le> 99 then 1900 + y else y)"

definition newDate :: "zone \<Rightarrow> number \<Rightarrow> number \<Rightarrow> number \<Rightarrow> Date" where
  \<comment> \<open>\<^verbatim>\<open>new Date(year, month, day)\<close>: local midnight of that day.\<close>
  "newDate tz year month day =
     (case year of None \<Rightarrow> None | Some y \<Rightarrow>
      (case month of None \<Rightarrow> None | Some m \<Rightarrow>
       (case day of None \<Rightarrow> None | Some d \<Rightarrow>
          TimeClip (UTC tz (MakeDate (MakeDay (fullYear y) m d) 0)))))"

definition Date_UTC :: "number \<Rightarrow> number \<Rightarrow> number \<Rightarrow> number" where
  \<comment> \<open>\<^verbatim>\<open>Date.UTC(year, month, day)\<close>.\<close>
  "Date_UTC year month day =
     (case year of None \<Rightarrow> None | Some y \<Rightarrow>
      (case month of None \<Rightarrow> None | Some m \<Rightarrow>
       (case day of None \<Rightarrow> None | Some d \<Rightarrow>
          TimeClip (MakeDate (MakeDay (fullYear y) m d) 0))))"

definition getFullYear :: "zone \<Rightarrow> Date \<Rightarrow> number" where
  "getFullYear tz date = map_option (\<lambda>t. YearFromTime (LocalTime tz t)) date"

definition getMonth :: "zone \<Rightarrow> Date \<Rightarrow> number" where
  "getMonth tz date = map_option (\<lambda>t. MonthFromTime (LocalTime tz t)) date"

definition getDate :: "zone \<Rightarrow> Date \<Rightarrow> number" where
  "getDate tz date = map_option (\<lambda>t. DateFromTime (LocalTime tz t)) date"

definition getUTCFullYear :: "Date \<Rightarrow> number" where
  "getUTCFullYear date = map_option YearFromTime date"

definition getUTCMonth :: "Date \<Rightarrow> number" where
  "getUTCMonth date = map_option MonthFromTime date"

definition getUTCDate :: "Date \<Rightarrow> number" where
  "getUTCDate date = map_option DateFromTime date"

definition setDate :: "zone \<Rightarrow> Date \<Rightarrow> number \<Rightarrow> number" where
  \<comment> \<open>\<^verbatim>\<open>date.setDate(dt)\<close>: the day of the month is replaced, the local time of day is
      kept; the new time value is returned.\<close>
  "setDate tz date dt =
     (case date of None \<Rightarrow> None | Some t0 \<Rightarrow>
      (case dt of None \<Rightarrow> None | Some d \<Rightarrow>
         (let t = LocalTime tz t0;
              newDate = MakeDate (MakeDay (YearFromTime t) (MonthFromTime t) d) (TimeWithinDay t)
          in TimeClip (UTC tz newDate))))"

definition newDateOfValue :: "number \<Rightarrow> Date" where
  \<comment> \<open>\<^verbatim>\<open>new Date(value)\<close> for a number.\<close>
  "newDateOfValue v = (case v of None \<Rightarrow> None | Some t \<Rightarrow> TimeClip t)"

definition pad2 :: "int \<Rightarrow> string" where
  "pad2 n = padStart (NumberToString n) 2 CHR ''0''"

definition dayName :: "int \<Rightarrow> string" where
  "dayName w = [''Sun'', ''Mon'', ''Tue'', ''Wed'', ''Thu'', ''Fri'', ''Sat''] ! nat (w mod 7)"

definition monthName :: "int \<Rightarrow> string" where
  "monthName m =
     [''Jan'', ''Feb'', ''Mar'', ''Apr'', ''May'', ''Jun'',
      ''Jul'', ''Aug'', ''Sep'', ''Oct'', ''Nov'', ''Dec''] ! nat (m mod 12)"

definition toUTCString :: "Date \<Rightarrow> string" where
  \<comment> \<open>\<^verbatim>\<open>date.toUTCString()\<close>: \<^verbatim>\<open>Www, DD Mmm YYYY HH:MM:SS GMT\<close>, a negative year with a
      minus sign, the year padded to four digits.\<close>
  "toUTCString date =
     (case date of
        None \<Rightarrow> ''Invalid Date''
      | Some tv \<Rightarrow>
          dayName (WeekDay tv) @ '', '' @ pad2 (DateFromTime tv) @ '' ''
          @ monthName (MonthFromTime tv) @ '' ''
          @ (if YearFromTime tv < 0 then ''-'' else [])
          @ padStart (NumberToString \<bar>YearFromTime tv\<bar>) 4 CHR ''0'' @ '' ''
          @ pad2 (HourFromTime tv) @ '':'' @ pad2 (MinFromTime tv) @ '':''
          @ pad2 (SecFromTime tv) @ '' GMT'')"

section \<open>The worker: \<^verbatim>\<open>src/worker.ts\<close>\<close>

subsection \<open>Resources and records\<close>

record BookChapter =
  Book :: string
  Chapter :: int

record Translation =
  Code :: string
  Description :: string

text \<open>
  The four JSON files under \<^verbatim>\<open>src/resources\<close> are data; the functions below take them
  as a parameter.
\<close>

record Resources =
  fullBookList :: "BookChapter list"
  otBookList :: "BookChapter list"
  ntBookList :: "BookChapter list"
  translationsJSON :: "Translation list"

record RSSItem =
  title :: string
  description :: string
  url :: string
  author :: string
  date :: Date

record FeedMetadata =
  title :: string
  description :: string
  feedUrl :: string
  siteUrl :: string
  imageUrl :: string
  managingEditor :: string
  webMaster :: string
  copyright :: string
  language :: string
  pubDate :: Date
  ttl :: int

datatype error = TypeError

definition bibleGatewaySlug :: string where
  "bibleGatewaySlug = ''https://www.biblegateway.com/passage/?search=''"

subsection \<open>Rendering\<close>

definition escapeXML :: "string \<Rightarrow> string" where
  "escapeXML str =
     replaceAll (CHR 0x27) ''&apos;''
       (replaceAll (CHR 0x22) ''&quot;''
         (replaceAll CHR ''>'' ''&gt;''
           (replaceAll CHR ''<'' ''&lt;''
             (replaceAll CHR ''&'' ''&amp;'' str))))"

definition formatRSSDate :: "Date \<Rightarrow> string" where
  "formatRSSDate d = toUTCString d"

definition nl :: string where
  "nl = [CHR 0x0A]"

definition itemXML :: "RSSItem \<Rightarrow> string" where
  \<comment> \<open>The template literal of one item; it opens with a line break.\<close>
  \<open>itemXML item =
     nl @ ''    <item>'' @ nl
     @ ''      <title>'' @ escapeXML (RSSItem.title item) @ ''</title>'' @ nl
     @ ''      <description>'' @ escapeXML (RSSItem.description item) @ ''</description>'' @ nl
     @ ''      <link>'' @ escapeXML (url item) @ ''</link>'' @ nl
     @ ''      <guid isPermaLink="true">'' @ escapeXML (url item) @ ''</guid>'' @ nl
     @ ''      <pubDate>'' @ formatRSSDate (date item) @ ''</pubDate>'' @ nl
     @ ''      <author>'' @ escapeXML (author item) @ ''</author>'' @ nl
     @ ''    </item>''\<close>

definition generateRSSXML :: "FeedMetadata \<Rightarrow> RSSItem list \<Rightarrow> string" where
  \<open>generateRSSXML feedMetadata items =
     (let itemsXML = concat (map itemXML items)
      in ''<?xml version="1.0" encoding="UTF-8"?>'' @ nl
         @ ''<rss version="2.0" xmlns:atom="http://www.w3.org/2005/Atom">'' @ nl
         @ ''  <channel>'' @ nl
         @ ''    <title>'' @ escapeXML (FeedMetadata.title feedMetadata) @ ''</title>'' @ nl
         @ ''    <description>'' @ escapeXML (FeedMetadata.description feedMetadata)
         @ ''</description>'' @ nl
         @ ''    <link>'' @ escapeXML (siteUrl feedMetadata) @ ''</link>'' @ nl
         @ ''    <atom:link href="'' @ escapeXML (feedUrl feedMetadata)
         @ ''" rel="self" type="application/rss+xml"/>'' @ nl
         @ ''    <language>'' @ escapeXML (language feedMetadata) @ ''</language>'' @ nl
         @ ''    <managingEditor>'' @ escapeXML (managingEditor feedMetadata)
         @ ''</managingEditor>'' @ nl
         @ ''    <webMaster>'' @ escapeXML (webMaster feedMetadata) @ ''</webMaster>'' @ nl
         @ ''    <copyright>'' @ escapeXML (copyright feedMetadata) @ ''</copyright>'' @ nl
         @ ''    <pubDate>'' @ formatRSSDate (pubDate feedMetadata) @ ''</pubDate>'' @ nl
         @ ''    <ttl>'' @ NumberToString (ttl feedMetadata) @ ''</ttl>'' @ nl
         @ ''    <image>'' @ nl
         @ ''      <url>'' @ escapeXML (imageUrl feedMetadata) @ ''</url>'' @ nl
         @ ''      <title>'' @ escapeXML (FeedMetadata.title feedMetadata) @ ''</title>'' @ nl
         @ ''      <link>'' @ escapeXML (siteUrl feedMetadata) @ ''</link>'' @ nl
         @ ''    </image>'' @ itemsXML @ nl
         @ ''  </channel>'' @ nl
         @ ''</rss>'')\<close>

subsection \<open>Sanitizers\<close>

definition SanitizePlan :: "string \<Rightarrow> string" where
  "SanitizePlan plan = (if plan \<in> set [''nt'', ''ot'', ''full''] then plan else ''full'')"

definition SanitizeDate :: "zone \<Rightarrow> int \<Rightarrow> string \<Rightarrow> Date" where
  \<comment> \<open>Nothing in the \<^verbatim>\<open>try\<close> block can throw on a string, so the \<^verbatim>\<open>catch\<close> branch has no
      counterpart here.  A \<^verbatim>\<open>NaN\<close> year, month or day passes the range test (every
      comparison with \<^verbatim>\<open>NaN\<close> is false) and is caught by the month comparison.\<close>
  "SanitizeDate tz now dateString =
     (if length dateString \<noteq> 8 then Some now
      else
        let year = parseInt (substring dateString 0 4) 0;
            month = arith2 (-) (parseInt (substring dateString 4 6) 0) (Some 1);
            day = parseInt (substring dateString 6 8) 0
        in if lt year (Some 1900) \<or> lt (Some 2100) year \<or> lt month (Some 0)
              \<or> lt (Some 11) month \<or> lt day (Some 1) \<or> lt (Some 31) day
           then Some now
           else
             let constructed = newDate tz year month day
             in if strictNe (getMonth tz constructed) month then Some now else constructed)"

definition SanitizeTranslation :: "Resources \<Rightarrow> string \<Rightarrow> string" where
  "SanitizeTranslation res translation =
     (case find (\<lambda>item. Code item = toUpperCase translation) (translationsJSON res) of
        Some found \<Rightarrow> Code found
      | None \<Rightarrow> ''ESV'')"

definition SanitizeChapters :: "string \<Rightarrow> int" where
  "SanitizeChapters chapters =
     (if 2 < length chapters then 1
      else case parseInt chapters 10 of
             None \<Rightarrow> 1
           | Some result \<Rightarrow> if result < 1 \<or> 99 < result then 1 else result)"

definition formatDateToyyyyMMdd :: "zone \<Rightarrow> int \<Rightarrow> string" where
  \<comment> \<open>Only called on the valid date that \<open>SanitizeDate\<close> returns: the argument is its
      time value.\<close>
  "formatDateToyyyyMMdd tz t =
     (let yyyy = YearFromTime (LocalTime tz t);
          MM = padStart (NumberToString (MonthFromTime (LocalTime tz t) + 1)) 2 CHR ''0'';
          dd = padStart (NumberToString (DateFromTime (LocalTime tz t))) 2 CHR ''0''
      in NumberToString yyyy @ MM @ dd)"

subsection \<open>The schedule\<close>

definition getDaysBetween :: "zone \<Rightarrow> int \<Rightarrow> Date \<Rightarrow> number" where
  "getDaysBetween tz now startDate =
     (let nowUTC = Date_UTC (getUTCFullYear (Some now)) (getUTCMonth (Some now))
                     (getUTCDate (Some now));
          compareUTC = Date_UTC (getFullYear tz startDate) (getMonth tz startDate)
                         (getDate tz startDate);
          diffInMilliSeconds = map_option abs (arith2 (-) nowUTC compareUTC)
      in map_option (\<lambda>d. d div (1000 * 60 * 60 * 24)) diffInMilliSeconds)"

definition BuildBibleGatewayURL :: "string \<Rightarrow> int \<Rightarrow> string \<Rightarrow> string" where
  "BuildBibleGatewayURL book chapter translation =
     bibleGatewaySlug @ encodeURIComponent book @ ''%20'' @ NumberToString chapter
     @ ''&version='' @ translation"

definition ceilDiv :: "int \<Rightarrow> int \<Rightarrow> int" where
  \<comment> \<open>\<^verbatim>\<open>Math.ceil(a / b)\<close> for integers \<open>a\<close> and \<open>b \<noteq> 0\<close>.\<close>
  "ceilDiv a b = - ((- a) div b)"

definition processChapter ::
  "zone \<Rightarrow> int \<Rightarrow> string \<Rightarrow> string \<Rightarrow> int \<Rightarrow> number \<Rightarrow> BookChapter \<Rightarrow> nat \<Rightarrow> RSSItem" where
  \<comment> \<open>The closure inside \<open>BuildRSSFeedItems\<close>, with its free variables as parameters.  It
      runs only on a sliced entry, hence with \<open>chaptersToGet \<noteq> 0\<close> and a divisor other than 0.\<close>
  "processChapter tz now plan translation numberOfChapters daysBetween chapter index =
     \<lparr> RSSItem.title = Book chapter @ '' '' @ NumberToString (Chapter chapter),
       RSSItem.description =
         ''Day '' @ NumberToString (ceilDiv (int index + 1) numberOfChapters) @ '' of ''
         @ toUpperCase plan @ '' plan in '' @ toUpperCase translation,
       url = BuildBibleGatewayURL (Book chapter) (Chapter chapter) translation,
       author = ''Bible Gateway'',
       date =
         newDateOfValue
           (setDate tz (Some now)
              (arith2 (-) (arith2 (-) (getDate tz (Some now)) (Some 1))
                 (arith2 (-) daysBetween (Some (ceilDiv (int index + 1) numberOfChapters))))) \<rparr>"

definition objectPrototypeKeys :: "string list" where
  \<comment> \<open>The property names every object literal inherits from \<^verbatim>\<open>Object.prototype\<close>.\<close>
  "objectPrototypeKeys =
     [''constructor'', ''__defineGetter__'', ''__defineSetter__'', ''hasOwnProperty'',
      ''__lookupGetter__'', ''__lookupSetter__'', ''isPrototypeOf'', ''propertyIsEnumerable'',
      ''toString'', ''valueOf'', ''__proto__'', ''toLocaleString'']"

definition selectBookList :: "Resources \<Rightarrow> string \<Rightarrow> BookChapter list option" where
  \<comment> \<open>\<^verbatim>\<open>bookListMap[plan] || fullBookList\<close>.  An array is truthy even when empty.  An
      inherited property name finds a function (or, for \<^verbatim>\<open>__proto__\<close>, the prototype
      object), which is truthy too and is no array: \<^term>\<open>None\<close>.\<close>
  "selectBookList res plan =
     (if plan = ''full'' then Some (fullBookList res)
      else if plan = ''ot'' then Some (otBookList res)
      else if plan = ''nt'' then Some (ntBookList res)
      else if plan \<in> set objectPrototypeKeys then None
      else Some (fullBookList res))"

definition sliceFrom0 :: "'a list \<Rightarrow> number \<Rightarrow> 'a list" where
  \<comment> \<open>\<^verbatim>\<open>xs.slice(0, end)\<close>: \<^verbatim>\<open>NaN\<close> counts as 0, a negative end counts from the back.\<close>
  "sliceFrom0 xs end =
     (case end of
        None \<Rightarrow> []
      | Some e \<Rightarrow> if e < 0 then take (nat (int (length xs) + e)) xs else take (nat e) xs)"

definition Math_min :: "number \<Rightarrow> number \<Rightarrow> number" where
  "Math_min a b = arith2 min a b"

definition BuildRSSFeedItems ::
  "Resources \<Rightarrow> zone \<Rightarrow> int \<Rightarrow> string \<Rightarrow> string \<Rightarrow> Date \<Rightarrow> int \<Rightarrow> error + RSSItem list" where
  \<comment> \<open>Calling \<^verbatim>\<open>slice\<close> on a value that is no array raises a \<^verbatim>\<open>TypeError\<close>.\<close>
  "BuildRSSFeedItems res tz now plan translation startDate numberOfChapters =
     (let daysBetween = getDaysBetween tz now startDate;
          chaptersToGet = arith2 (*) daysBetween (Some numberOfChapters);
          chaptersToGet = Math_min chaptersToGet (Some 1189)
      in case selectBookList res plan of
           None \<Rightarrow> Inl TypeError
         | Some bookList \<Rightarrow>
             Inr (map (\<lambda>(index, chapter).
                         processChapter tz now plan translation numberOfChapters daysBetween
                           chapter index)
                    (enumerate 0 (sliceFrom0 bookList chaptersToGet))))"

subsection \<open>The request handler\<close>

definition matchRoute :: "string \<Rightarrow> (string \<times> string \<times> string \<times> string) option" where
  \<comment> \<open>The regular expression of the feed route: four segments, none empty, none with a
      slash, between \<^verbatim>\<open>/rssbible/\<close> and \<^verbatim>\<open>/feed.rss\<close>.\<close>
  "matchRoute pathname =
     (case splitOn CHR ''/'' pathname of
        [e, r, plan, translation, startDate, chapters, f] \<Rightarrow>
          if e = [] \<and> r = ''rssbible'' \<and> f = ''feed.rss'' \<and> plan \<noteq> [] \<and> translation \<noteq> []
             \<and> startDate \<noteq> [] \<and> chapters \<noteq> []
          then Some (plan, translation, startDate, chapters)
          else None
      | _ \<Rightarrow> None)"

definition feedMetadata ::
  "Resources \<Rightarrow> zone \<Rightarrow> int \<Rightarrow> string \<Rightarrow> string \<Rightarrow> string \<Rightarrow> string \<Rightarrow> FeedMetadata" where
  "feedMetadata res tz now plan translation startDate chapters =
     (let sanitizedPlan = SanitizePlan plan;
          sanitizedStartDate = SanitizeDate tz now startDate;
          sanitizedChapters = SanitizeChapters chapters;
          sanitizedTranslation = SanitizeTranslation res translation
      in \<lparr> FeedMetadata.title = ''Bible Plan Feed'',
           FeedMetadata.description = ''Go to www.bibleplanfeed.com for more information.'',
           feedUrl =
             ''https://www.bibleplanfeed.com/rssbible/'' @ sanitizedPlan @ ''/''
             @ (case sanitizedStartDate of
                  None \<Rightarrow> ''NaNNaNNaN''
                | Some t \<Rightarrow> formatDateToyyyyMMdd tz t)
             @ ''/'' @ sanitizedTranslation @ ''/'' @ NumberToString sanitizedChapters
             @ ''/feed.rss'',
           siteUrl = ''https://www.bibleplanfeed.com/'',
           imageUrl = ''https://www.bibleplanfeed.com/icon.png'',
           managingEditor = ''github.com/tryonlinux - Not affiliated with Bible Gateway'',
           webMaster = ''github.com/tryonlinux'',
           copyright = ''github.com/tryonlinux - Not affiliated with Bible Gateway'',
           language = ''en'',
           pubDate = Some now,
           ttl = 60 \<rparr>)"

definition fetch :: "Resources \<Rightarrow> zone \<Rightarrow> int \<Rightarrow> string \<Rightarrow> (error + string) option" where
  \<comment> \<open>The body of the response for a path; \<^term>\<open>None\<close> when the path is not the feed
      route and the request goes to the static assets.\<close>
  "fetch res tz now pathname =
     (case matchRoute pathname of
        None \<Rightarrow> None
      | Some (plan, translation, startDate, chapters) \<Rightarrow>
          Some (case BuildRSSFeedItems res tz now (SanitizePlan plan)
                       (SanitizeTranslation res translation) (SanitizeDate tz now startDate)
                       (SanitizeChapters chapters) of
                  Inl e \<Rightarrow> Inl e
                | Inr items \<Rightarrow>
                    Inr (generateRSSXML
                           (feedMetadata res tz now plan translation startDate chapters) items)))"

section \<open>Notions of the specification\<close>

text \<open>
  The definitions of this section are not code of the worker.  They state what the
  specification talks about, so that the functions above can be compared with it.
\<close>

definition DaysInMonth :: "int \<Rightarrow> int \<Rightarrow> int" where
  \<comment> \<open>The length of month \<open>m\<close> (0 for January) of year \<open>y\<close>.\<close>
  "DaysInMonth y m =
     (if m = 1 then (if DaysInYear y = 366 then 29 else 28)
      else if m \<in> {3, 5, 8, 10} then 30 else 31)"

definition validCalendarDate :: "string \<Rightarrow> (int \<times> int \<times> int) option" where
  \<comment> \<open>The year, month (1 to 12) and day an eight-character string stands for, when the
      three parts parse, lie in the accepted ranges and name a day that the month has.\<close>
  "validCalendarDate s =
     (if length s \<noteq> 8 then None
      else case parseInt (substring s 0 4) 0 of None \<Rightarrow> None | Some y \<Rightarrow>
        (case parseInt (substring s 4 6) 0 of None \<Rightarrow> None | Some m \<Rightarrow>
          (case parseInt (substring s 6 8) 0 of None \<Rightarrow> None | Some d \<Rightarrow>
             if 1900 \<le> y \<and> y \<le> 2100 \<and> 1 \<le> m \<and> m \<le> 12 \<and> 1 \<le> d \<and> d \<le> 31
                \<and> d \<le> DaysInMonth y (m - 1)
             then Some (y, m, d) else None)))"

definition time_ok :: "int \<Rightarrow> bool" where
  \<comment> \<open>A time value inside the range of \<^verbatim>\<open>Date\<close> whose year is not one of 0 to 99, the
      years that \<^verbatim>\<open>Date.UTC\<close> reads as 1900 to 1999.\<close>
  "time_ok t = (\<bar>t\<bar> \<le> 8640000000000000 \<and> \<not> (0 \<le> YearFromTime t \<and> YearFromTime t \<le> 99))"

definition zone_ok :: "zone \<Rightarrow> bool" where
  \<comment> \<open>A local time converted to UTC and back moves by two days at most.  A zone of
      constant offset has it, and so has every zone whose offsets stay within a day.\<close>
  "zone_ok tz = (\<forall>t. \<bar>LocalTime tz (UTC tz t) - t\<bar> \<le> 2 * msPerDay)"

definition midnight_ok :: "zone \<Rightarrow> bool" where
  \<comment> \<open>At every local midnight the offset is a day at most, and the midnight, taken to UTC
      and back, stays on its day: it does when the zone has that midnight, and when the
      change of offset that skips it is shorter than a day.\<close>
  "midnight_ok tz =
     (\<forall>d. \<bar>tz (MakeDate d 0) False\<bar> \<le> msPerDay
          \<and> Day (LocalTime tz (UTC tz (MakeDate d 0))) = d)"






definition markup :: "char set" where
  \<comment> \<open>The five reserved characters.\<close>
  "markup = {CHR ''&'', CHR ''<'', CHR ''>'', CHR 0x22, CHR 0x27}"

definition xmlEntity :: "char \<Rightarrow> string" where
  \<comment> \<open>A reserved character as its entity; any other character as itself.\<close>
  "xmlEntity c =
     (if c = CHR ''&'' then ''&amp;''
      else if c = CHR ''<'' then ''&lt;''
      else if c = CHR ''>'' then ''&gt;''
      else if c = CHR 0x22 then ''&quot;''
      else if c = CHR 0x27 then ''&apos;''
      else [c])"

definition startsEntity :: "string \<Rightarrow> bool" where
  "startsEntity cs =
     list_ex (\<lambda>e. take (length e) cs = e) [''amp;'', ''lt;'', ''gt;'', ''quot;'', ''apos;'']"

fun ampersandsEscaped :: "string \<Rightarrow> bool" where
  \<comment> \<open>Every ampersand of the text opens one of the five entities.\<close>
  "ampersandsEscaped [] = True"
| "ampersandsEscaped (c # cs) =
     ((if c = CHR ''&'' then startsEntity cs else True) \<and> ampersandsEscaped cs)"

text \<open>
  Modelled from the spec: the catalogs and the translation registry
  (\<^verbatim>\<open>src/resources/*.json\<close>) are not among the sources.  Concrete runs below use this short
  excerpt, which agrees with the scenarios of the specification: the Old Testament and
  the full Bible open with Genesis, the New Testament with Matthew, and ESV, NIV and KJV
  are registered translations.
\<close>

definition demoResources :: Resources where
  "demoResources =
     \<lparr> fullBookList =
         [\<lparr>Book = ''Genesis'', Chapter = 1\<rparr>, \<lparr>Book = ''Genesis'', Chapter = 2\<rparr>,
          \<lparr>Book = ''Genesis'', Chapter = 3\<rparr>],
       otBookList =
         [\<lparr>Book = ''Genesis'', Chapter = 1\<rparr>, \<lparr>Book = ''Genesis'', Chapter = 2\<rparr>],
       ntBookList =
         [\<lparr>Book = ''Matthew'', Chapter = 1\<rparr>, \<lparr>Book = ''Matthew'', Chapter = 2\<rparr>],
       translationsJSON =
         [\<lparr>Code = ''ESV'', Description = ''English Standard Version''\<rparr>,
          \<lparr>Code = ''NIV'', Description = ''New International Version''\<rparr>,
          \<lparr>Code = ''KJV'', Description = ''King James Version''\<rparr>] \<rparr>"

text \<open>
  A zone whose offset changes, for the concrete runs: \<^verbatim>\<open>America/New_York\<close> around the end
  of daylight saving time on 2026-11-01 at 06:00 UTC (1793512800000), four hours behind
  UTC before that instant and five hours behind after it.  A local time that occurs
  twice is read with the offset in force before the change.
\<close>

definition easternTime :: zone where
  "easternTime t isUTC =
     (if (if isUTC then t else t + 14400000) < 1793512800000 then - 14400000 else - 18000000)"

section \<open>Properties\<close>

subsection \<open>Zones\<close>

lemma LocalTime_fixedZone: "LocalTime (fixedZone offset) t = t + offset"
  by (simp add: LocalTime_def fixedZone_def)

lemma UTC_fixedZone: "UTC (fixedZone offset) t = t - offset"
  by (simp add: UTC_def fixedZone_def)

subsection \<open>The calendar\<close>

lemma int_div_bounds:
  fixes a k :: int
  assumes "0 < k"
  shows "k * (a div k) \<le> a" and "a < k * (a div k) + k"
proof -
  have "a = k * (a div k) + a mod k" by simp
  moreover have "0 \<le> a mod k" "a mod k < k" using assms by simp_all
  ultimately show "k * (a div k) \<le> a" "a < k * (a div k) + k" by linarith+
qed

lemma DayFromYear_bounds:
  "146097 * (y - 1970) - 506 \<le> 400 * DayFromYear y"
  "400 * DayFromYear y \<le> 146097 * (y - 1970) + 589"
proof -
  have a: "4 * ((y - 1969) div 4) \<le> y - 1969" "y - 1969 < 4 * ((y - 1969) div 4) + 4"
    by (rule int_div_bounds, simp)+
  have b: "100 * ((y - 1901) div 100) \<le> y - 1901" "y - 1901 < 100 * ((y - 1901) div 100) + 100"
    by (rule int_div_bounds, simp)+
  have c: "400 * ((y - 1601) div 400) \<le> y - 1601" "y - 1601 < 400 * ((y - 1601) div 400) + 400"
    by (rule int_div_bounds, simp)+
  show "146097 * (y - 1970) - 506 \<le> 400 * DayFromYear y"
    unfolding DayFromYear_def using a b c by (simp add: algebra_simps)
  show "400 * DayFromYear y \<le> 146097 * (y - 1970) + 589"
    unfolding DayFromYear_def using a b c by (simp add: algebra_simps)
qed

lemma div_step:
  fixes a k :: int
  assumes "0 < k"
  shows "(a + 1) div k = a div k + (if (a + 1) mod k = 0 then 1 else 0)"
proof (cases "a mod k + 1 < k")
  case True
  have e: "a + 1 = k * (a div k) + (a mod k + 1)" by simp
  have r: "0 \<le> a mod k + 1" using assms by (simp add: add_nonneg_nonneg)
  have "(a + 1) div k = a div k" using int_div_pos_eq[OF e r True] .
  moreover have "(a + 1) mod k = a mod k + 1" using int_mod_pos_eq[OF e r True] .
  moreover have "0 \<le> a mod k" using assms by simp
  ultimately show ?thesis by simp
next
  case False
  have "a mod k < k" using assms by simp
  with False have m: "a mod k = k - 1" by linarith
  have d: "k * (a div k) + a mod k = a" by simp
  have "k * (a div k + 1) = k * (a div k) + k" by (simp add: algebra_simps)
  with d m have e: "a + 1 = k * (a div k + 1) + 0" by linarith
  have z: "(0::int) \<le> 0" by simp
  have "(a + 1) div k = a div k + 1" using int_div_pos_eq[OF e z assms] .
  moreover have "(a + 1) mod k = 0" using int_mod_pos_eq[OF e z assms] .
  ultimately show ?thesis by simp
qed

lemma DayFromYear_Suc: "DayFromYear (y + 1) = DayFromYear y + DaysInYear y"
proof -
  have r4: "(y - 1968) mod 4 = y mod 4"
    using mod_diff_right_eq[of y 1968 4] by simp
  have r100: "(y - 1900) mod 100 = y mod 100"
    using mod_diff_right_eq[of y 1900 100] by simp
  have r400: "(y - 1600) mod 400 = y mod 400"
    using mod_diff_right_eq[of y 1600 400] by simp
  have s4: "(y - 1968) div 4 = (y - 1969) div 4 + (if y mod 4 = 0 then 1 else 0)"
    using div_step[of 4 "y - 1969"] r4 by simp
  have s100: "(y - 1900) div 100 = (y - 1901) div 100 + (if y mod 100 = 0 then 1 else 0)"
    using div_step[of 100 "y - 1901"] r100 by simp
  have s400: "(y - 1600) div 400 = (y - 1601) div 400 + (if y mod 400 = 0 then 1 else 0)"
    using div_step[of 400 "y - 1601"] r400 by simp
  have m1: "y mod 400 = 0 \<Longrightarrow> y mod 100 = 0"
    using mod_mod_cancel[of 100 400 y] by simp
  have m2: "y mod 100 = 0 \<Longrightarrow> y mod 4 = 0"
    using mod_mod_cancel[of 4 100 y] by simp
  have "DayFromYear (y + 1) = 365 * (y - 1969) + (y - 1968) div 4 - (y - 1900) div 100 + (y - 1600) div 400"
    by (simp add: DayFromYear_def algebra_simps)
  then show ?thesis
    using m1 m2 by (auto simp add: s4 s100 s400 DayFromYear_def DaysInYear_def)
qed

lemma YearFromDay_spec:
  "DayFromYear (YearFromDay d) \<le> d" "d < DayFromYear (YearFromDay d + 1)"
proof -
  define q where "q = (400 * d) div 146097"
  have q: "146097 * q \<le> 400 * d" "400 * d < 146097 * q + 146097"
    unfolding q_def by (rule int_div_bounds, simp)+
  have lo: "DayFromYear (1970 + q - 1) \<le> d"
    using DayFromYear_bounds(2)[of "1970 + q - 1"] q by (simp add: algebra_simps)
  have hi: "d < DayFromYear (1970 + q + 1 + 1)"
    using DayFromYear_bounds(1)[of "1970 + q + 1 + 1"] q by (simp add: algebra_simps)
  show "DayFromYear (YearFromDay d) \<le> d"
    using lo hi unfolding YearFromDay_def Let_def q_def[symmetric]
    by (auto simp add: algebra_simps)
  show "d < DayFromYear (YearFromDay d + 1)"
    using lo hi unfolding YearFromDay_def Let_def q_def[symmetric]
    by (auto simp add: algebra_simps)
qed

lemma DaysInYear_pos: "0 < DaysInYear y"
  by (simp add: DaysInYear_def)

lemma DayFromYear_mono: "y \<le> y' \<Longrightarrow> DayFromYear y \<le> DayFromYear y'"
proof (induction y' rule: int_ge_induct)
  case base
  then show ?case by simp
next
  case (step i)
  then show ?case using DaysInYear_pos[of i] DayFromYear_Suc[of i] by linarith
qed

lemma YearFromDay_unique:
  assumes "DayFromYear y \<le> d" "d < DayFromYear (y + 1)"
  shows "YearFromDay d = y"
proof -
  let ?z = "YearFromDay d"
  have z: "DayFromYear ?z \<le> d" "d < DayFromYear (?z + 1)"
    using YearFromDay_spec[of d] by simp_all
  have "\<not> ?z < y"
  proof
    assume "?z < y"
    then have "DayFromYear (?z + 1) \<le> DayFromYear y" by (intro DayFromYear_mono) simp
    with z assms show False by linarith
  qed
  moreover have "\<not> y < ?z"
  proof
    assume "y < ?z"
    then have "DayFromYear (y + 1) \<le> DayFromYear ?z" by (intro DayFromYear_mono) simp
    with z assms show False by linarith
  qed
  ultimately show ?thesis by linarith
qed


lemma month_cases:
  fixes m :: int
  assumes "0 \<le> m" "m \<le> 11"
  shows "m = 0 \<or> m = 1 \<or> m = 2 \<or> m = 3 \<or> m = 4 \<or> m = 5 \<or> m = 6 \<or> m = 7 \<or> m = 8 \<or> m = 9
         \<or> m = 10 \<or> m = 11"
  using assms by presburger

lemma MonthFromTime_range: "0 \<le> MonthFromTime t" "MonthFromTime t \<le> 11"
  by (simp_all add: MonthFromTime_def Let_def)

lemma DateFromTime_eq:
  "DateFromTime t = DayWithinYear t - monthStart (InLeapYear t) (MonthFromTime t) + 1"
  using month_cases[OF MonthFromTime_range[of t]]
  by (elim disjE) (simp_all add: DateFromTime_def Let_def monthStart_def)

lemma MakeDay_in_year:
  "0 \<le> m \<Longrightarrow> m \<le> 11 \<Longrightarrow>
   MakeDay y m d = DayFromYear y + monthStart (if DaysInYear y = 366 then 1 else 0) m + d - 1"
  by (simp add: MakeDay_def Let_def)

lemma MakeDay_of_time:
  "MakeDay (YearFromTime t) (MonthFromTime t) k = Day t - DateFromTime t + k"
  using MonthFromTime_range[of t]
  by (simp add: MakeDay_in_year DateFromTime_eq DayWithinYear_def InLeapYear_def)

lemma Day_MakeDate: "0 \<le> tod \<Longrightarrow> tod < msPerDay \<Longrightarrow> Day (MakeDate d tod) = d"
  by (simp add: Day_def MakeDate_def msPerDay_def div_pos_pos_trivial)

lemma monthStart_next:
  assumes "0 \<le> m" "m \<le> 11"
  shows "monthStart (if DaysInYear y = 366 then 1 else 0) (m + 1)
         = monthStart (if DaysInYear y = 366 then 1 else 0) m + DaysInMonth y m"
  using month_cases[OF assms] by (elim disjE) (simp_all add: monthStart_def DaysInMonth_def)

lemma DaysInYear_cases: "DaysInYear y = 365 \<or> DaysInYear y = 366"
  by (simp add: DaysInYear_def)

lemma day_within_year_of_date:
  assumes m: "0 \<le> m" "m \<le> 11" and d: "1 \<le> d" "d \<le> DaysInMonth y m"
  shows "0 \<le> monthStart (if DaysInYear y = 366 then 1 else 0) m + d - 1"
    and "monthStart (if DaysInYear y = 366 then 1 else 0) m + d - 1 < DaysInYear y"
  using month_cases[OF m] DaysInYear_cases[of y] d
  by (elim disjE; simp add: monthStart_def DaysInMonth_def)+

lemma month_of_day_within_year:
  assumes m: "0 \<le> m" "m \<le> 11" and d: "1 \<le> d" "d \<le> DaysInMonth y m"
    and W: "DayWithinYear t = monthStart (if DaysInYear y = 366 then 1 else 0) m + d - 1"
    and L: "InLeapYear t = (if DaysInYear y = 366 then 1 else 0)"
  shows "MonthFromTime t = m"
  unfolding MonthFromTime_def W L Let_def
  using month_cases[OF m] DaysInYear_cases[of y] d
  by (elim disjE; simp add: monthStart_def DaysInMonth_def)

lemma fields_of_MakeDay:
  assumes m: "0 \<le> m" "m \<le> 11" and d: "1 \<le> d" "d \<le> DaysInMonth y m"
    and tod: "0 \<le> tod" "tod < msPerDay"
  shows "YearFromTime (MakeDate (MakeDay y m d) tod) = y"
    and "MonthFromTime (MakeDate (MakeDay y m d) tod) = m"
    and "DateFromTime (MakeDate (MakeDay y m d) tod) = d"
proof -
  let ?leap = "if DaysInYear y = 366 then 1 else 0 :: int"
  let ?t = "MakeDate (MakeDay y m d) tod"
  have D: "Day ?t = DayFromYear y + monthStart ?leap m + d - 1"
    using Day_MakeDate[OF tod] MakeDay_in_year[OF m] by simp
  note in_year = day_within_year_of_date[OF m d]
  show Y: "YearFromTime ?t = y"
    unfolding YearFromTime_def D
    by (rule YearFromDay_unique) (use in_year DayFromYear_Suc[of y] in simp_all)
  have W: "DayWithinYear ?t = monthStart ?leap m + d - 1"
    by (simp add: DayWithinYear_def Y D)
  have L: "InLeapYear ?t = ?leap"
    by (simp add: InLeapYear_def Y)
  show M: "MonthFromTime ?t = m"
    by (rule month_of_day_within_year[OF m d W L])
  show "DateFromTime ?t = d"
    by (simp add: DateFromTime_eq W L M)
qed

lemma DaysInMonth_range: "28 \<le> DaysInMonth y m" "DaysInMonth y m \<le> 31"
  by (simp_all add: DaysInMonth_def)

lemma DaysInMonth_December: "DaysInMonth y 11 = 31"
  by (simp add: DaysInMonth_def)

lemma month_of_overflow:
  assumes m: "0 \<le> m" "m \<le> 11" and d: "DaysInMonth y m < d" "d \<le> 31"
    and tod: "0 \<le> tod" "tod < msPerDay"
  shows "MonthFromTime (MakeDate (MakeDay y m d) tod) = m + 1"
proof -
  have "m \<noteq> 11" using d DaysInMonth_December[of y] by auto
  then have m': "0 \<le> m + 1" "m + 1 \<le> 11" using m by simp_all
  have e: "MakeDay y m d = MakeDay y (m + 1) (d - DaysInMonth y m)"
    using monthStart_next[OF m, of y]
    by (simp add: MakeDay_in_year[OF m] MakeDay_in_year[OF m'])
  have r: "1 \<le> d - DaysInMonth y m" "d - DaysInMonth y m \<le> DaysInMonth y (m + 1)"
    using d DaysInMonth_range[of y m] DaysInMonth_range[of y "m + 1"] by linarith+
  show ?thesis
    unfolding e using fields_of_MakeDay(2)[OF m' r tod] .
qed

subsection \<open>Date objects\<close>

lemma Day_bounds: "Day t * msPerDay \<le> t" "t < Day t * msPerDay + msPerDay"
  using int_div_bounds[of msPerDay t] by (simp_all add: Day_def msPerDay_def mult.commute)

lemma TimeClip_day_start:
  assumes "\<bar>t\<bar> \<le> 8640000000000000"
  shows "TimeClip (Day t * msPerDay) = Some (Day t * msPerDay)"
proof -
  have "- 100000000 \<le> Day t"
  proof (rule ccontr)
    assume "\<not> - 100000000 \<le> Day t"
    then have "Day t + 1 \<le> - 100000000" by simp
    then have "(Day t + 1) * msPerDay \<le> - 100000000 * msPerDay"
      by (simp add: msPerDay_def)
    with Day_bounds(2)[of t] assms show False by (simp add: msPerDay_def algebra_simps)
  qed
  then have "- 8640000000000000 \<le> Day t * msPerDay" by (simp add: msPerDay_def)
  with Day_bounds(1)[of t] assms show ?thesis by (simp add: TimeClip_def)
qed

lemma Date_UTC_of_fields:
  assumes "time_ok t"
  shows "Date_UTC (Some (YearFromTime t)) (Some (MonthFromTime t)) (Some (DateFromTime t))
         = Some (Day t * msPerDay)"
proof -
  have "fullYear (YearFromTime t) = YearFromTime t"
    using assms by (auto simp add: time_ok_def fullYear_def)
  then show ?thesis
    using assms TimeClip_day_start[of t]
    by (simp add: Date_UTC_def MakeDay_of_time MakeDate_def time_ok_def)
qed

lemma getDaysBetween_eq:
  assumes "time_ok now" "time_ok (LocalTime tz t)"
  shows "getDaysBetween tz now (Some t) = Some \<bar>Day now - Day (LocalTime tz t)\<bar>"
proof -
  have "\<bar>Day now * msPerDay - Day (LocalTime tz t) * msPerDay\<bar> div 86400000
        = \<bar>Day now - Day (LocalTime tz t)\<bar>"
  proof -
    have "Day now * msPerDay - Day (LocalTime tz t) * msPerDay
          = (Day now - Day (LocalTime tz t)) * 86400000"
      by (simp add: msPerDay_def algebra_simps)
    then show ?thesis by (simp add: abs_mult)
  qed
  then show ?thesis
    using Date_UTC_of_fields[OF assms(1)] Date_UTC_of_fields[OF assms(2)]
    by (simp add: getDaysBetween_def getUTCFullYear_def getUTCMonth_def getUTCDate_def
        getFullYear_def getMonth_def getDate_def arith2_def Let_def)
qed

lemma setDate_eq:
  "setDate tz (Some now) (arith2 (-) (arith2 (-) (getDate tz (Some now)) (Some 1)) (Some k))
   = TimeClip (UTC tz (LocalTime tz now - (1 + k) * msPerDay))"
proof -
  let ?t = "LocalTime tz now"
  have "MakeDate (MakeDay (YearFromTime ?t) (MonthFromTime ?t) (DateFromTime ?t - 1 - k))
          (TimeWithinDay ?t) = ?t - (1 + k) * msPerDay"
  proof -
    have "Day ?t * msPerDay + TimeWithinDay ?t = ?t"
      by (simp add: Day_def TimeWithinDay_def)
    then show ?thesis
      by (simp add: MakeDay_of_time MakeDate_def algebra_simps)
  qed
  then show ?thesis
    by (simp add: setDate_def getDate_def arith2_def Let_def)
qed

lemma monthStart_range:
  assumes "0 \<le> m" "m \<le> 11"
  shows "0 \<le> monthStart (if DaysInYear y = 366 then 1 else 0) m"
    and "monthStart (if DaysInYear y = 366 then 1 else 0) m \<le> 335"
  using month_cases[OF assms] by (elim disjE; simp add: monthStart_def)+

lemma MakeDay_range:
  assumes y: "1900 \<le> y" "y \<le> 2100" and m: "0 \<le> m" "m \<le> 11" and d: "1 \<le> d" "d \<le> 31"
  shows "- 25567 \<le> MakeDay y m d" "MakeDay y m d \<le> 47847"
proof -
  have "DayFromYear 1900 \<le> DayFromYear y" "DayFromYear y \<le> DayFromYear 2100"
    using y by (auto intro: DayFromYear_mono)
  moreover have "DayFromYear 1900 = - 25567" "DayFromYear 2100 = 47482"
    by (simp_all add: DayFromYear_def)
  ultimately show "- 25567 \<le> MakeDay y m d" "MakeDay y m d \<le> 47847"
    using monthStart_range[OF m, of y] d by (simp_all add: MakeDay_in_year[OF m])
qed

lemma fields_of_Day:
  assumes "Day t = Day t'"
  shows "YearFromTime t = YearFromTime t'" "MonthFromTime t = MonthFromTime t'"
    "DateFromTime t = DateFromTime t'"
  by (simp_all add: YearFromTime_def MonthFromTime_def DateFromTime_def DayWithinYear_def
      InLeapYear_def assms)

lemma midnight_ok_fixedZone:
  assumes "\<bar>offset\<bar> \<le> msPerDay"
  shows "midnight_ok (fixedZone offset)"
  using assms
  by (simp add: midnight_ok_def fixedZone_def LocalTime_def UTC_def Day_MakeDate msPerDay_def)

lemma local_midnight:
  assumes "midnight_ok tz"
  shows "Day (LocalTime tz (UTC tz (MakeDate d 0))) = d"
    and "YearFromTime (LocalTime tz (UTC tz (MakeDate d 0))) = YearFromTime (MakeDate d 0)"
    and "MonthFromTime (LocalTime tz (UTC tz (MakeDate d 0))) = MonthFromTime (MakeDate d 0)"
    and "DateFromTime (LocalTime tz (UTC tz (MakeDate d 0))) = DateFromTime (MakeDate d 0)"
proof -
  show D: "Day (LocalTime tz (UTC tz (MakeDate d 0))) = d"
    using assms by (simp add: midnight_ok_def)
  have "Day (MakeDate d 0) = d"
    by (rule Day_MakeDate) (simp_all add: msPerDay_def)
  with D have e: "Day (LocalTime tz (UTC tz (MakeDate d 0))) = Day (MakeDate d 0)"
    by simp
  show "YearFromTime (LocalTime tz (UTC tz (MakeDate d 0))) = YearFromTime (MakeDate d 0)"
    "MonthFromTime (LocalTime tz (UTC tz (MakeDate d 0))) = MonthFromTime (MakeDate d 0)"
    "DateFromTime (LocalTime tz (UTC tz (MakeDate d 0))) = DateFromTime (MakeDate d 0)"
    by (rule fields_of_Day[OF e])+
qed

lemma newDate_in_range:
  assumes y: "1900 \<le> y" "y \<le> 2100" and m: "0 \<le> m" "m \<le> 11" and d: "1 \<le> d" "d \<le> 31"
    and tz: "midnight_ok tz"
  shows "newDate tz (Some y) (Some m) (Some d) = Some (UTC tz (MakeDate (MakeDay y m d) 0))"
proof -
  let ?mid = "MakeDate (MakeDay y m d) 0"
  have "\<bar>tz ?mid False\<bar> \<le> msPerDay"
    using tz by (simp add: midnight_ok_def)
  moreover have "\<bar>?mid\<bar> \<le> 47847 * msPerDay"
    using MakeDay_range[OF y m d] by (simp add: MakeDate_def msPerDay_def)
  ultimately have "\<bar>UTC tz ?mid\<bar> \<le> 8640000000000000"
    by (simp add: UTC_def msPerDay_def)
  then show ?thesis
    using y by (simp add: newDate_def fullYear_def TimeClip_def)
qed

lemma msPerDay_pos: "0 \<le> (0::int)" "0 < msPerDay"
  by (simp_all add: msPerDay_def)

lemma rollover_check:
  assumes y: "1900 \<le> y" "y \<le> 2100" and m: "0 \<le> m" "m \<le> 11" and d: "1 \<le> d" "d \<le> 31"
    and tz: "midnight_ok tz"
  shows "strictNe (getMonth tz (newDate tz (Some y) (Some m) (Some d))) (Some m)
         \<longleftrightarrow> DaysInMonth y m < d"
proof (cases "d \<le> DaysInMonth y m")
  case True
  then show ?thesis
    using fields_of_MakeDay(2)[OF m d(1) True msPerDay_pos]
    by (simp add: newDate_in_range[OF y m d tz] getMonth_def strictNe_def local_midnight[OF tz])
next
  case False
  then have "DaysInMonth y m < d" by simp
  then show ?thesis
    using month_of_overflow[OF m _ d(2) msPerDay_pos, of y]
    by (simp add: newDate_in_range[OF y m d tz] getMonth_def strictNe_def local_midnight[OF tz])
qed

lemma lt_simps [simp]:
  "lt None b = False" "lt a None = False" "lt (Some x) (Some y) = (x < y)"
  by (simp_all add: lt_def split: option.splits)

lemma SanitizeDate_eq:
  assumes tz: "midnight_ok tz"
  shows "SanitizeDate tz now s =
          (case validCalendarDate s of
             None \<Rightarrow> Some now
           | Some (y, m, d) \<Rightarrow> Some (UTC tz (MakeDate (MakeDay y (m - 1) d) 0)))"
proof (cases "length s = 8")
  case False
  then show ?thesis by (simp add: SanitizeDate_def validCalendarDate_def)
next
  case len: True
  show ?thesis
  proof (cases "parseInt (substring s 0 4) 0")
    case None
    then show ?thesis
      using len by (simp add: SanitizeDate_def validCalendarDate_def Let_def newDate_def
          getMonth_def strictNe_def)
  next
    case Y: (Some y)
    show ?thesis
    proof (cases "parseInt (substring s 4 6) 0")
      case None
      then show ?thesis
        using len Y by (simp add: SanitizeDate_def validCalendarDate_def Let_def newDate_def
            getMonth_def strictNe_def arith2_def)
    next
      case M: (Some m)
      show ?thesis
      proof (cases "parseInt (substring s 6 8) 0")
        case None
        then show ?thesis
          using len Y M by (simp add: SanitizeDate_def validCalendarDate_def Let_def newDate_def
              getMonth_def strictNe_def arith2_def)
      next
        case D: (Some d)
        show ?thesis
        proof (cases "1900 \<le> y \<and> y \<le> 2100 \<and> 1 \<le> m \<and> m \<le> 12 \<and> 1 \<le> d \<and> d \<le> 31")
          case False
          then show ?thesis
            using len Y M D
            by (auto simp add: SanitizeDate_def validCalendarDate_def Let_def arith2_def)
        next
          case True
          then have r: "1900 \<le> y" "y \<le> 2100" "0 \<le> m - 1" "m - 1 \<le> 11" "1 \<le> d" "d \<le> 31"
            by simp_all
          have "SanitizeDate tz now s =
                  (if strictNe (getMonth tz (newDate tz (Some y) (Some (m - 1)) (Some d)))
                        (Some (m - 1))
                   then Some now else newDate tz (Some y) (Some (m - 1)) (Some d))"
            using len Y M D True
            by (simp add: SanitizeDate_def Let_def arith2_def)
          then show ?thesis
            using len Y M D True rollover_check[OF r tz] newDate_in_range[OF r tz]
            by (simp add: validCalendarDate_def)
        qed
      qed
    qed
  qed
qed

subsection \<open>The item list\<close>

lemma YearFromDay_ge:
  assumes "DayFromYear y \<le> d"
  shows "y \<le> YearFromDay d"
proof (rule ccontr)
  assume "\<not> y \<le> YearFromDay d"
  then have "YearFromDay d + 1 \<le> y" by simp
  then have "DayFromYear (YearFromDay d + 1) \<le> DayFromYear y" by (rule DayFromYear_mono)
  with YearFromDay_spec(2)[of d] assms show False by linarith
qed

lemma time_ok_of_date:
  assumes y: "1900 \<le> y" "y \<le> 2100" and m: "0 \<le> m" "m \<le> 11" and d: "1 \<le> d" "d \<le> 31"
  shows "time_ok (MakeDate (MakeDay y m d) 0)"
proof -
  have D: "Day (MakeDate (MakeDay y m d) 0) = MakeDay y m d"
    by (rule Day_MakeDate) (simp_all add: msPerDay_def)
  have "DayFromYear 100 \<le> MakeDay y m d"
    using MakeDay_range(1)[OF y m d] by (simp add: DayFromYear_def)
  then have "100 \<le> YearFromTime (MakeDate (MakeDay y m d) 0)"
    unfolding YearFromTime_def D by (rule YearFromDay_ge)
  then show ?thesis
    using MakeDay_range[OF y m d] by (simp add: time_ok_def MakeDate_def msPerDay_def)
qed



lemma Day_ge:
  assumes "a * msPerDay \<le> t"
  shows "a \<le> Day t"
proof (rule ccontr)
  assume "\<not> a \<le> Day t"
  then have "Day t + 1 \<le> a" by simp
  then have "(Day t + 1) * msPerDay \<le> a * msPerDay"
    by (simp add: msPerDay_def)
  with Day_bounds(2)[of t] assms show False by (simp add: algebra_simps)
qed

lemma time_ok_between:
  assumes "- 25570 * msPerDay \<le> t" "t \<le> 47850 * msPerDay"
  shows "time_ok t"
proof -
  have "- 25570 \<le> Day t" using Day_ge[OF assms(1)] .
  moreover have "DayFromYear 100 = - 683003" by (simp add: DayFromYear_def)
  ultimately have "DayFromYear 100 \<le> Day t" by simp
  then have "100 \<le> YearFromTime t"
    unfolding YearFromTime_def by (rule YearFromDay_ge)
  then show ?thesis
    using assms by (simp add: time_ok_def msPerDay_def)
qed

lemma zone_ok_fixedZone: "zone_ok (fixedZone offset)"
  by (simp add: zone_ok_def UTC_fixedZone LocalTime_fixedZone msPerDay_def)

lemma zone_ok_bounded:
  assumes "\<forall>t isUTC. \<bar>tz t isUTC\<bar> \<le> msPerDay"
  shows "zone_ok tz"
proof -
  have "\<bar>LocalTime tz (UTC tz t) - t\<bar> \<le> 2 * msPerDay" for t
  proof -
    have "LocalTime tz (UTC tz t) - t = tz (t - tz t False) True - tz t False"
      by (simp add: LocalTime_def UTC_def)
    moreover have "\<bar>tz (t - tz t False) True\<bar> \<le> msPerDay" "\<bar>tz t False\<bar> \<le> msPerDay"
      using assms by blast+
    ultimately show ?thesis by linarith
  qed
  then show ?thesis by (simp add: zone_ok_def)
qed

lemma zone_ok_easternTime: "zone_ok easternTime"
  by (rule zone_ok_bounded) (simp add: easternTime_def msPerDay_def)





lemma BuildRSSFeedItems_Inr:
  assumes "selectBookList res plan = Some cat"
  shows "BuildRSSFeedItems res tz now plan translation startDate n =
         Inr (map (\<lambda>(index, chapter).
                     processChapter tz now plan translation n (getDaysBetween tz now startDate)
                       chapter index)
                (enumerate 0 (sliceFrom0 cat
                   (Math_min (arith2 (*) (getDaysBetween tz now startDate) (Some n)) (Some 1189)))))"
  using assms by (simp add: BuildRSSFeedItems_def Let_def)


lemma sliceFrom0_nth:
  assumes "i < length (sliceFrom0 xs e)"
  shows "i < length xs \<and> sliceFrom0 xs e ! i = xs ! i"
  using assms by (auto simp add: sliceFrom0_def split: option.splits if_splits)

lemma BuildRSSFeedItems_nth:
  assumes "BuildRSSFeedItems res tz now plan translation startDate n = Inr items"
    and "i < length items"
  shows "\<exists>cat. selectBookList res plan = Some cat \<and> i < length cat
           \<and> items ! i = processChapter tz now plan translation n
                             (getDaysBetween tz now startDate) (cat ! i) i"
proof (cases "selectBookList res plan")
  case None
  then show ?thesis using assms by (simp add: BuildRSSFeedItems_def Let_def)
next
  case (Some cat)
  let ?sl = "sliceFrom0 cat
      (Math_min (arith2 (*) (getDaysBetween tz now startDate) (Some n)) (Some 1189))"
  have items: "items = map (\<lambda>(index, chapter).
                     processChapter tz now plan translation n (getDaysBetween tz now startDate)
                       chapter index) (enumerate 0 ?sl)"
    using assms(1) BuildRSSFeedItems_Inr[OF Some] by simp
  then have i: "i < length ?sl" using assms(2) by simp
  then show ?thesis
    using Some sliceFrom0_nth[OF i] by (simp add: items nth_enumerate_eq)
qed


subsection \<open>Decimal digits and the date layout\<close>

lemma digit_cases:
  fixes k :: nat
  assumes "k < 10"
  shows "k = 0 \<or> k = 1 \<or> k = 2 \<or> k = 3 \<or> k = 4 \<or> k = 5 \<or> k = 6 \<or> k = 7 \<or> k = 8 \<or> k = 9"
  using assms by presburger

lemma decimalDigit_in: "decimalDigit n \<in> set ''0123456789''"
proof -
  have "n mod 10 < 10" by simp
  from digit_cases[OF this] show ?thesis
    unfolding decimalDigit_def by (elim disjE) simp_all
qed


lemma toDecimal_digits: "set (toDecimal n) \<subseteq> set ''0123456789''"
proof (induction n rule: toDecimal.induct)
  case (1 n)
  show ?case
  proof (cases "n < 10")
    case True
    then show ?thesis using decimalDigit_in[of n] by (subst toDecimal.simps) simp
  next
    case False
    then show ?thesis
      using 1 decimalDigit_in[of n] by (subst toDecimal.simps) simp
  qed
qed














lemma weekday_cases:
  fixes k :: nat
  assumes "k < 7"
  shows "k = 0 \<or> k = 1 \<or> k = 2 \<or> k = 3 \<or> k = 4 \<or> k = 5 \<or> k = 6"
  using assms by presburger

lemma dayName_cases:
  "dayName w \<in> set [''Sun'', ''Mon'', ''Tue'', ''Wed'', ''Thu'', ''Fri'', ''Sat'']"
proof -
  have "0 \<le> w mod 7" "w mod 7 < 7" by simp_all
  then have "nat (w mod 7) < 7" by simp
  from weekday_cases[OF this] show ?thesis
    unfolding dayName_def by (elim disjE) simp_all
qed

lemma monthName_cases:
  "monthName m \<in> set [''Jan'', ''Feb'', ''Mar'', ''Apr'', ''May'', ''Jun'',
                       ''Jul'', ''Aug'', ''Sep'', ''Oct'', ''Nov'', ''Dec'']"
proof -
  have "0 \<le> m mod 12" "m mod 12 \<le> 11" by simp_all
  from month_cases[OF this] show ?thesis
    unfolding monthName_def by (elim disjE) simp_all
qed




subsection \<open>Escaping\<close>

lemma replaceAll_append: "replaceAll c r (xs @ ys) = replaceAll c r xs @ replaceAll c r ys"
  by (simp add: replaceAll_def)

lemma escapeXML_append: "escapeXML (xs @ ys) = escapeXML xs @ escapeXML ys"
  by (simp add: escapeXML_def replaceAll_append)

lemma escapeXML_single: "escapeXML [c] = xmlEntity c"
  by (simp add: escapeXML_def replaceAll_def xmlEntity_def)

lemma escapeXML_Nil: "escapeXML [] = []"
  by (simp add: escapeXML_def replaceAll_def)

lemma escapeXML_eq: "escapeXML s = concat (map xmlEntity s)"
proof (induction s)
  case Nil
  show ?case by (simp add: escapeXML_Nil)
next
  case (Cons c s)
  have "escapeXML (c # s) = escapeXML ([c] @ s)" by simp
  also have "\<dots> = xmlEntity c @ escapeXML s"
    by (simp only: escapeXML_append escapeXML_single)
  finally show ?case by (simp add: Cons)
qed

lemma xmlEntity_raw: "set (xmlEntity c) \<inter> {CHR ''<'', CHR ''>'', CHR 0x22, CHR 0x27} = {}"
  by (simp add: xmlEntity_def)

lemma escapeXML_raw: "set (escapeXML s) \<inter> {CHR ''<'', CHR ''>'', CHR 0x22, CHR 0x27} = {}"
  using xmlEntity_raw by (auto simp add: escapeXML_eq)

lemma take_prefix_append:
  assumes "take (length e) xs = e"
  shows "take (length e) (xs @ ys) = e"
proof -
  have "length (take (length e) xs) = length e" using assms by simp
  then have "length e \<le> length xs" by simp
  then show ?thesis using assms by simp
qed

lemma startsEntity_append:
  assumes "startsEntity xs"
  shows "startsEntity (xs @ ys)"
proof -
  obtain e where e: "e \<in> set [''amp;'', ''lt;'', ''gt;'', ''quot;'', ''apos;'']"
      "take (length e) xs = e"
    using assms unfolding startsEntity_def list_ex_iff by blast
  from take_prefix_append[OF e(2)] e(1) show ?thesis
    unfolding startsEntity_def list_ex_iff by blast
qed

lemma ampersandsEscaped_append:
  "ampersandsEscaped xs \<Longrightarrow> ampersandsEscaped ys \<Longrightarrow> ampersandsEscaped (xs @ ys)"
  by (induction xs) (auto simp add: startsEntity_append)

lemma ampersandsEscaped_plain: "CHR ''&'' \<notin> set s \<Longrightarrow> ampersandsEscaped s"
  by (induction s) auto

lemma ampersandsEscaped_entity: "ampersandsEscaped (xmlEntity c)"
  by (simp add: xmlEntity_def startsEntity_def)

lemma ampersandsEscaped_escapeXML: "ampersandsEscaped (escapeXML s)"
  unfolding escapeXML_eq
  by (induction s) (simp_all add: ampersandsEscaped_append ampersandsEscaped_entity)

lemma toDecimal_markup: "set (toDecimal n) \<inter> markup = {}"
  using toDecimal_digits[of n] by (auto simp add: markup_def)

lemma NumberToString_markup: "set (NumberToString n) \<inter> markup = {}"
  using toDecimal_markup[of "nat n"] toDecimal_markup[of "nat (- n)"]
  by (auto simp add: NumberToString_def markup_def)

lemma padStart_markup: "set s \<inter> markup = {} \<Longrightarrow> set (padStart s n CHR ''0'') \<inter> markup = {}"
  by (auto simp add: padStart_def markup_def)

lemma pad2_markup: "set (pad2 n) \<inter> markup = {}"
  unfolding pad2_def by (rule padStart_markup[OF NumberToString_markup])

lemma dayName_markup: "set (dayName w) \<inter> markup = {}"
  using dayName_cases[of w] by (auto simp add: markup_def)

lemma monthName_markup: "set (monthName m) \<inter> markup = {}"
  using monthName_cases[of m] by (auto simp add: markup_def)

lemma toUTCString_markup: "set (toUTCString d) \<inter> markup = {}"
proof (cases d)
  case None
  then show ?thesis by (simp add: toUTCString_def markup_def)
next
  case (Some t)
  have lit: "set '', '' \<inter> markup = {}" "set '' '' \<inter> markup = {}" "set '':'' \<inter> markup = {}"
    "set '' GMT'' \<inter> markup = {}" "set ''-'' \<inter> markup = {}"
    by (simp_all add: markup_def)
  show ?thesis
    unfolding Some toUTCString_def option.case set_append Int_Un_distrib2
    using lit dayName_markup pad2_markup monthName_markup
      padStart_markup[OF NumberToString_markup]
    by (cases "YearFromTime t < 0") simp_all
qed

lemma formatRSSDate_markup: "set (formatRSSDate d) \<inter> markup = {}"
  by (simp add: formatRSSDate_def toUTCString_markup)

lemma escapeXML_markup: "set (escapeXML s) \<inter> (markup - {CHR ''&''}) = {}"
  using escapeXML_raw[of s] by (auto simp add: markup_def)

lemma count_markup:
  assumes "set s \<inter> markup = {}"
  shows "count_list s CHR ''&'' = 0" "count_list s CHR ''<'' = 0" "count_list s CHR ''>'' = 0"
    "count_list s (CHR 0x22) = 0" "count_list s (CHR 0x27) = 0"
  using assms by (auto simp add: markup_def count_list_0_iff)

lemma count_escapeXML:
  "count_list (escapeXML s) CHR ''<'' = 0" "count_list (escapeXML s) CHR ''>'' = 0"
  "count_list (escapeXML s) (CHR 0x22) = 0" "count_list (escapeXML s) (CHR 0x27) = 0"
  using escapeXML_raw[of s] by (auto simp add: count_list_0_iff)

lemma itemXML_counts:
  "count_list (itemXML item) CHR ''<'' = 14" "count_list (itemXML item) CHR ''>'' = 14"
  "count_list (itemXML item) (CHR 0x22) = 2" "count_list (itemXML item) (CHR 0x27) = 0"
  by (simp_all add: itemXML_def nl_def count_escapeXML count_markup[OF formatRSSDate_markup])

lemma itemsXML_counts:
  "count_list (concat (map itemXML items)) CHR ''<'' = 14 * length items"
  "count_list (concat (map itemXML items)) CHR ''>'' = 14 * length items"
  "count_list (concat (map itemXML items)) (CHR 0x22) = 2 * length items"
  "count_list (concat (map itemXML items)) (CHR 0x27) = 0"
  by (induction items) (simp_all add: itemXML_counts)

lemma generateRSSXML_counts:
  "count_list (generateRSSXML m items) CHR ''<'' = 32 + 14 * length items"
  "count_list (generateRSSXML m items) CHR ''>'' = 32 + 14 * length items"
  "count_list (generateRSSXML m items) (CHR 0x22) = 14 + 2 * length items"
  "count_list (generateRSSXML m items) (CHR 0x27) = 0"
  by (simp_all add: generateRSSXML_def Let_def nl_def itemsXML_counts count_escapeXML
      count_markup[OF formatRSSDate_markup] count_markup[OF NumberToString_markup])

lemma no_amp: "set s \<inter> markup = {} \<Longrightarrow> CHR ''&'' \<notin> set s"
  by (auto simp add: markup_def)

lemma ampersandsEscaped_itemXML: "ampersandsEscaped (itemXML item)"
  unfolding itemXML_def nl_def
  by (intro ampersandsEscaped_append ampersandsEscaped_escapeXML
      ampersandsEscaped_plain[OF no_amp[OF formatRSSDate_markup]])
    (simp_all add: ampersandsEscaped_plain)

lemma ampersandsEscaped_items: "ampersandsEscaped (concat (map itemXML items))"
  by (induction items) (simp_all add: ampersandsEscaped_append ampersandsEscaped_itemXML)

lemma ampersandsEscaped_generateRSSXML: "ampersandsEscaped (generateRSSXML m items)"
  unfolding generateRSSXML_def Let_def nl_def
  by (intro ampersandsEscaped_append ampersandsEscaped_escapeXML ampersandsEscaped_items
      ampersandsEscaped_plain[OF no_amp[OF formatRSSDate_markup]]
      ampersandsEscaped_plain[OF no_amp[OF NumberToString_markup]])
    (simp_all add: ampersandsEscaped_plain)

lemma escapeXML_example:
  \<open>escapeXML (''<a href="x">Tom & Jerry'' @ [CHR 0x27] @ ''s</a>'')
   = ''&lt;a href=&quot;x&quot;&gt;Tom &amp; Jerry&apos;s&lt;/a&gt;''\<close>
  by (simp add: escapeXML_eq xmlEntity_def)

subsection \<open>Percent-encoding\<close>

lemma hex_cases:
  fixes k :: nat
  assumes "k < 16"
  shows "k = 0 \<or> k = 1 \<or> k = 2 \<or> k = 3 \<or> k = 4 \<or> k = 5 \<or> k = 6 \<or> k = 7 \<or> k = 8 \<or> k = 9
         \<or> k = 10 \<or> k = 11 \<or> k = 12 \<or> k = 13 \<or> k = 14 \<or> k = 15"
  using assms by presburger

lemma uriUnreserved_hexDigit: "uriUnreserved (hexDigit n)"
proof -
  have "n mod 16 < 16" by simp
  from hex_cases[OF this] show ?thesis
    unfolding hexDigit_def by (elim disjE) (simp_all add: uriUnreserved_def)
qed

lemma encodeURIChar_chars:
  "list_all (\<lambda>x. uriUnreserved x \<or> x = CHR ''%'') (encodeURIChar c)"
  by (simp add: encodeURIChar_def percentByte_def uriUnreserved_hexDigit Let_def)

lemma encodeURIComponent_chars:
  "list_all (\<lambda>x. uriUnreserved x \<or> x = CHR ''%'') (encodeURIComponent s)"
  by (induction s) (simp_all add: encodeURIComponent_def encodeURIChar_chars)

subsection \<open>Sanitized requests\<close>





lemma YearFromTime_nonneg:
  assumes "0 \<le> t"
  shows "1970 \<le> YearFromTime t"
proof -
  have "0 \<le> Day t" using assms by (simp add: Day_def msPerDay_def pos_imp_zdiv_nonneg_iff)
  moreover have "DayFromYear 1970 = 0" by (simp add: DayFromYear_def)
  ultimately show ?thesis unfolding YearFromTime_def by (intro YearFromDay_ge) simp
qed

lemma time_ok_nonneg:
  assumes "0 \<le> t" "t \<le> 8640000000000000"
  shows "time_ok t"
  using assms YearFromTime_nonneg[OF assms(1)] by (simp add: time_ok_def)

lemma newDateOfValue_TimeClip: "newDateOfValue (TimeClip t) = TimeClip t"
  by (simp add: newDateOfValue_def TimeClip_def)

lemma processChapter_eq:
  "processChapter tz now plan translation n (Some db) chapter i =
     \<lparr> RSSItem.title = Book chapter @ '' '' @ NumberToString (Chapter chapter),
       RSSItem.description =
         ''Day '' @ NumberToString (ceilDiv (int i + 1) n) @ '' of ''
         @ toUpperCase plan @ '' plan in '' @ toUpperCase translation,
       url = BuildBibleGatewayURL (Book chapter) (Chapter chapter) translation,
       author = ''Bible Gateway'',
       date = TimeClip (UTC tz (LocalTime tz now
                - (1 + (db - ceilDiv (int i + 1) n)) * msPerDay)) \<rparr>"
proof -
  have "arith2 (-) (Some db) (Some (ceilDiv (int i + 1) n)) = Some (db - ceilDiv (int i + 1) n)"
    by (simp add: arith2_def)
  then show ?thesis
    by (simp add: processChapter_def setDate_eq newDateOfValue_TimeClip)
qed

lemma fixedZone_shift: "UTC (fixedZone offset) (LocalTime (fixedZone offset) t - k) = t - k"
  by (simp add: UTC_fixedZone LocalTime_fixedZone)


lemma getDaysBetween_of_date:
  assumes "time_ok now"
    and "1900 \<le> y" "y \<le> 2100" "0 \<le> m" "m \<le> 11" "1 \<le> d" "d \<le> 31"
    and tz: "midnight_ok tz"
  shows "getDaysBetween tz now (Some (UTC tz (MakeDate (MakeDay y m d) 0)))
         = Some \<bar>Day now - MakeDay y m d\<bar>"
proof -
  let ?l = "LocalTime tz (UTC tz (MakeDate (MakeDay y m d) 0))"
  have D: "Day ?l = MakeDay y m d"
    by (rule local_midnight(1)[OF tz])
  have b: "- 25567 * msPerDay \<le> ?l" "?l < 47847 * msPerDay + msPerDay"
    using Day_bounds[of ?l] MakeDay_range[OF assms(2-7)] unfolding D
    by (simp_all add: msPerDay_def)
  have "time_ok ?l"
  proof (rule time_ok_between)
    show "- 25570 * msPerDay \<le> ?l" using b(1) by (simp add: msPerDay_def)
    show "?l \<le> 47850 * msPerDay" using b(2) by (simp add: msPerDay_def)
  qed
  from getDaysBetween_eq[OF assms(1) this] show ?thesis
    by (simp add: D)
qed

lemma validCalendarDate_SomeD:
  assumes "validCalendarDate s = Some (y, m, d)"
  shows "1900 \<le> y" "y \<le> 2100" "0 \<le> m - 1" "m - 1 \<le> 11" "1 \<le> d" "d \<le> 31"
    "d \<le> DaysInMonth y (m - 1)"
  using assms by (auto simp add: validCalendarDate_def split: if_splits option.splits)

lemma getMonth_newDate_iff:
  assumes y: "1900 \<le> y" "y \<le> 2100" and m: "0 \<le> m" "m \<le> 11" and d: "1 \<le> d" "d \<le> 31"
    and tz: "midnight_ok tz"
  shows "getMonth tz (newDate tz (Some y) (Some m) (Some d)) = Some m \<longleftrightarrow> d \<le> DaysInMonth y m"
  using rollover_check[OF assms]
  by (auto simp add: newDate_in_range[OF assms] getMonth_def strictNe_def)

lemma formatDateToyyyyMMdd_of_date:
  assumes "0 \<le> m" "m \<le> 11" "1 \<le> d" "d \<le> DaysInMonth y m" and tz: "midnight_ok tz"
  shows "formatDateToyyyyMMdd tz (UTC tz (MakeDate (MakeDay y m d) 0))
         = NumberToString y @ padStart (NumberToString (m + 1)) 2 CHR ''0''
           @ padStart (NumberToString d) 2 CHR ''0''"
  using fields_of_MakeDay[OF assms(1-4) msPerDay_pos]
  by (simp add: formatDateToyyyyMMdd_def local_midnight[OF tz] Let_def)


subsection \<open>Concrete runs\<close>

text \<open>
  Runs on the excerpt \<open>demoResources\<close>.  The clock readings are 2026-11-03 13:32:00 UTC
  (1793712720000) and 2026-01-01 23:30:00 UTC (1767310200000).  The zones are UTC, the
  zone one hour east of it and \<open>easternTime\<close>.  The key \<^verbatim>\<open>constructor\<close> of the last lemma
  is one that \<open>bookListMap\<close> inherits; the handler never passes it, since \<open>SanitizePlan\<close>
  turns it into \<^verbatim>\<open>full\<close>.
\<close>

lemma demo_run:
  "BuildRSSFeedItems demoResources (fixedZone 0) 1793712720000 ''nt'' ''ESV''
     (SanitizeDate (fixedZone 0) 1793712720000 ''20261101'') 1
   = Inr [\<lparr>RSSItem.title = ''Matthew 1'', RSSItem.description = ''Day 1 of NT plan in ESV'',
            url = ''https://www.biblegateway.com/passage/?search=Matthew%201&version=ESV'',
            author = ''Bible Gateway'', date = Some 1793539920000\<rparr>,
          \<lparr>RSSItem.title = ''Matthew 2'', RSSItem.description = ''Day 2 of NT plan in ESV'',
            url = ''https://www.biblegateway.com/passage/?search=Matthew%202&version=ESV'',
            author = ''Bible Gateway'', date = Some 1793626320000\<rparr>]"
proof -
  have v: "validCalendarDate ''20261101'' = Some (2026, 11, 1)"
    by code_simp
  have tz: "midnight_ok (fixedZone 0)"
    by (rule midnight_ok_fixedZone) (simp add: msPerDay_def)
  have sd: "SanitizeDate (fixedZone 0) 1793712720000 ''20261101''
            = Some (UTC (fixedZone 0) (MakeDate (MakeDay 2026 10 1) 0))"
    using SanitizeDate_eq[OF tz, of 1793712720000 "''20261101''"] by (simp add: v)
  have now: "time_ok 1793712720000"
    by (rule time_ok_nonneg) simp_all
  have md: "MakeDay 2026 10 1 = 20758"
    by (simp add: MakeDay_def DayFromYear_def DaysInYear_def monthStart_def)
  have db: "getDaysBetween (fixedZone 0) 1793712720000
              (SanitizeDate (fixedZone 0) 1793712720000 ''20261101'') = Some 2"
    unfolding sd using getDaysBetween_of_date[OF now _ _ _ _ _ _ tz, of 2026 10 1]
    by (simp add: md Day_def msPerDay_def)
  have sel: "selectBookList demoResources ''nt''
             = Some [\<lparr>Book = ''Matthew'', Chapter = 1\<rparr>, \<lparr>Book = ''Matthew'', Chapter = 2\<rparr>]"
    by (simp add: selectBookList_def demoResources_def)
  have s: "toUpperCase ''nt'' = ''NT''" "toUpperCase ''ESV'' = ''ESV''"
    "encodeURIComponent ''Matthew'' = ''Matthew''"
    "NumberToString 1 = ''1''" "NumberToString 2 = ''2''"
    by code_simp+
  show ?thesis
    unfolding BuildRSSFeedItems_Inr[OF sel] db
    by (simp add: Math_min_def arith2_def sliceFrom0_def processChapter_eq ceilDiv_def s
        BuildBibleGatewayURL_def bibleGatewaySlug_def TimeClip_def msPerDay_def fixedZone_shift)
qed

lemma fallback_run_utc:
  "BuildRSSFeedItems demoResources (fixedZone 0) 1767310200000 (SanitizePlan ''ot'')
     (SanitizeTranslation demoResources ''esv'')
     (SanitizeDate (fixedZone 0) 1767310200000 ''today'')
     (SanitizeChapters ''1'') = Inr []"
proof -
  have sd: "SanitizeDate (fixedZone 0) 1767310200000 ''today'' = Some 1767310200000"
    by (simp add: SanitizeDate_def)
  have a: "time_ok 1767310200000" "time_ok (LocalTime (fixedZone 0) 1767310200000)"
    unfolding LocalTime_fixedZone by (rule time_ok_nonneg; simp)+
  have db: "getDaysBetween (fixedZone 0) 1767310200000 (Some 1767310200000) = Some 0"
    using getDaysBetween_eq[OF a] by (simp add: LocalTime_fixedZone)
  have s: "SanitizePlan ''ot'' = ''ot''" "SanitizeTranslation demoResources ''esv'' = ''ESV''"
    "SanitizeChapters ''1'' = 1"
    by code_simp+
  have sel: "selectBookList demoResources ''ot''
             = Some [\<lparr>Book = ''Genesis'', Chapter = 1\<rparr>, \<lparr>Book = ''Genesis'', Chapter = 2\<rparr>]"
    by (simp add: selectBookList_def demoResources_def)
  show ?thesis
    unfolding s sd BuildRSSFeedItems_Inr[OF sel] db
    by (simp add: Math_min_def arith2_def sliceFrom0_def)
qed

lemma fallback_run_plus_one_hour:
  "BuildRSSFeedItems demoResources (fixedZone 3600000) 1767310200000 (SanitizePlan ''ot'')
     (SanitizeTranslation demoResources ''esv'')
     (SanitizeDate (fixedZone 3600000) 1767310200000 ''today'')
     (SanitizeChapters ''1'')
   = Inr [\<lparr>RSSItem.title = ''Genesis 1'', RSSItem.description = ''Day 1 of OT plan in ESV'',
            url = ''https://www.biblegateway.com/passage/?search=Genesis%201&version=ESV'',
            author = ''Bible Gateway'', date = Some 1767223800000\<rparr>]"
proof -
  have sd: "SanitizeDate (fixedZone 3600000) 1767310200000 ''today'' = Some 1767310200000"
    by (simp add: SanitizeDate_def)
  have a: "time_ok 1767310200000" "time_ok (LocalTime (fixedZone 3600000) 1767310200000)"
    unfolding LocalTime_fixedZone by (rule time_ok_nonneg; simp)+
  have db: "getDaysBetween (fixedZone 3600000) 1767310200000 (Some 1767310200000) = Some 1"
    using getDaysBetween_eq[OF a] by (simp add: LocalTime_fixedZone Day_def msPerDay_def)
  have s: "SanitizePlan ''ot'' = ''ot''" "SanitizeTranslation demoResources ''esv'' = ''ESV''"
    "SanitizeChapters ''1'' = 1" "toUpperCase ''ot'' = ''OT''" "toUpperCase ''ESV'' = ''ESV''"
    "encodeURIComponent ''Genesis'' = ''Genesis''" "NumberToString 1 = ''1''"
    by code_simp+
  have sel: "selectBookList demoResources ''ot''
             = Some [\<lparr>Book = ''Genesis'', Chapter = 1\<rparr>, \<lparr>Book = ''Genesis'', Chapter = 2\<rparr>]"
    by (simp add: selectBookList_def demoResources_def)
  show ?thesis
    unfolding s(1-3) sd BuildRSSFeedItems_Inr[OF sel] db
    by (simp add: Math_min_def arith2_def sliceFrom0_def processChapter_eq ceilDiv_def s
        BuildBibleGatewayURL_def bibleGatewaySlug_def TimeClip_def msPerDay_def fixedZone_shift)
qed

lemma valid_start_date_zone_independent:
  assumes "\<bar>tz\<bar> \<le> msPerDay" "\<bar>tz'\<bar> \<le> msPerDay" "time_ok now"
    and "validCalendarDate s \<noteq> None"
  shows "BuildRSSFeedItems res (fixedZone tz) now plan translation
           (SanitizeDate (fixedZone tz) now s) n
         = BuildRSSFeedItems res (fixedZone tz') now plan translation
             (SanitizeDate (fixedZone tz') now s) n"
proof -
  obtain y m d where v: "validCalendarDate s = Some (y, m, d)"
    using assms(4) by (cases "validCalendarDate s") auto
  note r = validCalendarDate_SomeD[OF v]
  note z = midnight_ok_fixedZone[OF assms(1)] midnight_ok_fixedZone[OF assms(2)]
  have sd:
    "SanitizeDate (fixedZone tz) now s
     = Some (UTC (fixedZone tz) (MakeDate (MakeDay y (m - 1) d) 0))"
    "SanitizeDate (fixedZone tz') now s
     = Some (UTC (fixedZone tz') (MakeDate (MakeDay y (m - 1) d) 0))"
    using SanitizeDate_eq[OF z(1), of now s] SanitizeDate_eq[OF z(2), of now s] v
    by simp_all
  have db:
    "getDaysBetween (fixedZone tz) now (SanitizeDate (fixedZone tz) now s)
     = Some \<bar>Day now - MakeDay y (m - 1) d\<bar>"
    "getDaysBetween (fixedZone tz') now (SanitizeDate (fixedZone tz') now s)
     = Some \<bar>Day now - MakeDay y (m - 1) d\<bar>"
    unfolding sd
    by (rule getDaysBetween_of_date[OF assms(3) r(1-6) z(1)] getDaysBetween_of_date[OF assms(3) r(1-6) z(2)])+
  have pc:
    "processChapter (fixedZone tz) now plan translation n
       (Some \<bar>Day now - MakeDay y (m - 1) d\<bar>)
     = processChapter (fixedZone tz') now plan translation n
         (Some \<bar>Day now - MakeDay y (m - 1) d\<bar>)"
    by (intro ext) (simp add: processChapter_eq fixedZone_shift)
  show ?thesis
    by (cases "selectBookList res plan") (simp_all add: BuildRSSFeedItems_def Let_def db pc)
qed



lemma inherited_plan_key_raises:
  "selectBookList demoResources ''constructor'' = None"
  "BuildRSSFeedItems demoResources (fixedZone 0) 1793712720000 ''constructor'' ''ESV''
     (Some 1793539920000) 1 = Inl TypeError"
  "SanitizePlan ''constructor'' = ''full''"
  by (simp_all add: BuildRSSFeedItems_def selectBookList_def objectPrototypeKeys_def Let_def
      SanitizePlan_def)

section \<open>The claims\<close>

subsection \<open>The size of the feed\<close>





subsection \<open>The items\<close>

text \<open>
  Claim C4.  The item produced for the catalog entry at zero-based index \<open>i\<close> has the
  title \<^verbatim>\<open><Book> <Chapter>\<close>, the description
  \<^verbatim>\<open>Day <dayNumber> of <PLAN> plan in <TRANSLATION>\<close> with
  \<open>dayNumber = \<lceil>(i + 1) / chaptersPerDay\<rceil>\<close> and plan and translation in upper case, the
  author \<^verbatim>\<open>Bible Gateway\<close>, and as link the Bible Gateway search address followed by the
  percent-encoded book name, \<^verbatim>\<open>%20\<close>, the chapter number and \<^verbatim>\<open>&version=\<close> with the
  translation code.  The encoded book name consists of unreserved characters and
  percent signs only.
\<close>

theorem feed_item_fields:
  assumes "BuildRSSFeedItems res tz now plan translation startDate n = Inr items"
    and "i < length items"
  shows "\<exists>cat. selectBookList res plan = Some cat \<and> i < length cat
           \<and> RSSItem.title (items ! i)
               = Book (cat ! i) @ '' '' @ NumberToString (Chapter (cat ! i))
           \<and> RSSItem.description (items ! i)
               = ''Day '' @ NumberToString \<lceil>real (i + 1) / real_of_int n\<rceil> @ '' of ''
                 @ toUpperCase plan @ '' plan in '' @ toUpperCase translation
           \<and> author (items ! i) = ''Bible Gateway''
           \<and> url (items ! i)
               = ''https://www.biblegateway.com/passage/?search=''
                 @ encodeURIComponent (Book (cat ! i)) @ ''%20''
                 @ NumberToString (Chapter (cat ! i)) @ ''&version='' @ translation
           \<and> list_all (\<lambda>c. uriUnreserved c \<or> c = CHR ''%'')
                 (encodeURIComponent (Book (cat ! i)))"
proof -
  obtain cat where cat: "selectBookList res plan = Some cat" "i < length cat"
    "items ! i = processChapter tz now plan translation n (getDaysBetween tz now startDate)
                   (cat ! i) i"
    using BuildRSSFeedItems_nth[OF assms] by blast
  have "\<lceil>real_of_int (int i + 1) / real_of_int n\<rceil> = - (- (int i + 1) div n)"
    by (rule ceiling_divide_eq_div)
  moreover have "real_of_int (int i + 1) = real (i + 1)"
    by simp
  ultimately have "ceilDiv (int i + 1) n = \<lceil>real (i + 1) / real_of_int n\<rceil>"
    by (simp only: ceilDiv_def)
  then show ?thesis
    using cat encodeURIComponent_chars[of "Book (cat ! i)"]
    by (simp add: processChapter_def BuildBibleGatewayURL_def bibleGatewaySlug_def)
qed

theorem feed_item_fields_witness:
  "BuildRSSFeedItems demoResources (fixedZone 0) 1793712720000 ''nt'' ''ESV''
     (SanitizeDate (fixedZone 0) 1793712720000 ''20261101'') 1
   = Inr [\<lparr>RSSItem.title = ''Matthew 1'', RSSItem.description = ''Day 1 of NT plan in ESV'',
            url = ''https://www.biblegateway.com/passage/?search=Matthew%201&version=ESV'',
            author = ''Bible Gateway'', date = Some 1793539920000\<rparr>,
          \<lparr>RSSItem.title = ''Matthew 2'', RSSItem.description = ''Day 2 of NT plan in ESV'',
            url = ''https://www.biblegateway.com/passage/?search=Matthew%202&version=ESV'',
            author = ''Bible Gateway'', date = Some 1793626320000\<rparr>]
   \<and> (\<exists>cat. selectBookList demoResources ''nt'' = Some cat \<and> 1 < length cat
         \<and> ''Matthew 2'' = Book (cat ! 1) @ '' '' @ NumberToString (Chapter (cat ! 1))
         \<and> ''Day 2 of NT plan in ESV''
             = ''Day '' @ NumberToString \<lceil>real (1 + 1) / real_of_int 1\<rceil> @ '' of ''
               @ toUpperCase ''nt'' @ '' plan in '' @ toUpperCase ''ESV''
         \<and> ''https://www.biblegateway.com/passage/?search=Matthew%202&version=ESV''
             = ''https://www.biblegateway.com/passage/?search=''
               @ encodeURIComponent (Book (cat ! 1)) @ ''%20''
               @ NumberToString (Chapter (cat ! 1)) @ ''&version='' @ ''ESV''
         \<and> list_all (\<lambda>c. uriUnreserved c \<or> c = CHR ''%'')
               (encodeURIComponent (Book (cat ! 1))))"
proof -
  let ?items =
    "[\<lparr>RSSItem.title = ''Matthew 1'', RSSItem.description = ''Day 1 of NT plan in ESV'',
        url = ''https://www.biblegateway.com/passage/?search=Matthew%201&version=ESV'',
        author = ''Bible Gateway'', date = Some 1793539920000\<rparr>,
      \<lparr>RSSItem.title = ''Matthew 2'', RSSItem.description = ''Day 2 of NT plan in ESV'',
        url = ''https://www.biblegateway.com/passage/?search=Matthew%202&version=ESV'',
        author = ''Bible Gateway'', date = Some 1793626320000\<rparr>]"
  have idx: "1 < length ?items"
    by simp
  from feed_item_fields [OF demo_run idx] demo_run show ?thesis
    by simp
qed




subsection \<open>Dates\<close>

text \<open>
  Claim C7.  \<open>SanitizeDate\<close> returns the parsed calendar date, a date whose local year,
  month and day are the parsed ones, exactly when the string has eight characters, the
  year lies in 1900 to 2100, the month in 1 to 12, the day in 1 to 31 and the month has
  that day (\<open>validCalendarDate\<close>); for every other string, a parse failure included, it
  returns the clock reading.  It is a total function and both answers are valid dates.
  The second part says that the code's test, comparing the month of the constructed date
  with the requested month, finds exactly the days that the month does not have.  The
  zone is assumed to keep a local midnight on its day, at an offset of one day at most
  (\<open>midnight_ok\<close>); a zone of a constant offset of at most one day does, and so does
  \<open>easternTime\<close>.
\<close>

theorem SanitizeDate_accepts_exactly:
  assumes "midnight_ok tz"
  shows "(case validCalendarDate s of
            None \<Rightarrow> SanitizeDate tz now s = Some now
          | Some (y, m, d) \<Rightarrow>
              SanitizeDate tz now s = newDate tz (Some y) (Some (m - 1)) (Some d)
              \<and> getFullYear tz (SanitizeDate tz now s) = Some y
              \<and> getMonth tz (SanitizeDate tz now s) = Some (m - 1)
              \<and> getDate tz (SanitizeDate tz now s) = Some d)
         \<and> (\<forall>y m d. 1900 \<le> y \<and> y \<le> 2100 \<and> 1 \<le> m \<and> m \<le> 12 \<and> 1 \<le> d \<and> d \<le> 31
                \<longrightarrow> (getMonth tz (newDate tz (Some y) (Some (m - 1)) (Some d)) = Some (m - 1)
                     \<longleftrightarrow> d \<le> DaysInMonth y (m - 1)))"
proof -
  have first: "case validCalendarDate s of
            None \<Rightarrow> SanitizeDate tz now s = Some now
          | Some (y, m, d) \<Rightarrow>
              SanitizeDate tz now s = newDate tz (Some y) (Some (m - 1)) (Some d)
              \<and> getFullYear tz (SanitizeDate tz now s) = Some y
              \<and> getMonth tz (SanitizeDate tz now s) = Some (m - 1)
              \<and> getDate tz (SanitizeDate tz now s) = Some d"
  proof (cases "validCalendarDate s")
    case None
    then show ?thesis using SanitizeDate_eq[OF assms, of now s] by simp
  next
    case (Some ymd)
    obtain y m d where ymd: "ymd = (y, m, d)" by (cases ymd)
    note v = validCalendarDate_SomeD[OF Some[unfolded ymd]]
    have sd: "SanitizeDate tz now s = Some (UTC tz (MakeDate (MakeDay y (m - 1) d) 0))"
      using SanitizeDate_eq[OF assms, of now s] Some ymd by simp
    note l = local_midnight(2-4)[OF assms]
    note f = fields_of_MakeDay[OF v(3,4,5,7) msPerDay_pos]
    show ?thesis
      using f newDate_in_range[OF v(1-6) assms]
      by (simp add: Some ymd sd getFullYear_def getMonth_def getDate_def l)
  qed
  have second: "\<forall>y m d. 1900 \<le> y \<and> y \<le> 2100 \<and> 1 \<le> m \<and> m \<le> 12 \<and> 1 \<le> d \<and> d \<le> 31
                \<longrightarrow> (getMonth tz (newDate tz (Some y) (Some (m - 1)) (Some d)) = Some (m - 1)
                     \<longleftrightarrow> d \<le> DaysInMonth y (m - 1))"
    using getMonth_newDate_iff[OF _ _ _ _ _ _ assms] by simp
  from first second show ?thesis by blast
qed

theorem SanitizeDate_accepts_exactly_witness:
  "midnight_ok (fixedZone 3600000)
   \<and> SanitizeDate (fixedZone 3600000) 1793712720000 ''20240229'' = Some 1709161200000
   \<and> getFullYear (fixedZone 3600000)
       (SanitizeDate (fixedZone 3600000) 1793712720000 ''20240229'') = Some 2024
   \<and> getMonth (fixedZone 3600000)
       (SanitizeDate (fixedZone 3600000) 1793712720000 ''20240229'') = Some 1
   \<and> getDate (fixedZone 3600000)
       (SanitizeDate (fixedZone 3600000) 1793712720000 ''20240229'') = Some 29
   \<and> SanitizeDate (fixedZone 3600000) 1793712720000 ''20230229'' = Some 1793712720000
   \<and> SanitizeDate (fixedZone 3600000) 1793712720000 ''20261332'' = Some 1793712720000
   \<and> getMonth (fixedZone 3600000)
         (newDate (fixedZone 3600000) (Some 2023) (Some (2 - 1)) (Some 29)) \<noteq> Some (2 - 1)"
proof -
  have tz: "midnight_ok (fixedZone 3600000)"
    by (simp add: midnight_ok_def fixedZone_def LocalTime_def UTC_def Day_MakeDate msPerDay_def)
  have a: "validCalendarDate ''20240229'' = Some (2024, 2, 29)"
    by code_simp
  have b: "validCalendarDate ''20230229'' = None"
    by code_simp
  have c: "validCalendarDate ''20261332'' = None"
    by code_simp
  have n: "newDate (fixedZone 3600000) (Some 2024) (Some (2 - 1)) (Some 29) = Some 1709161200000"
    by (simp add: newDate_def fullYear_def MakeDay_def DayFromYear_def DaysInYear_def
        monthStart_def MakeDate_def UTC_fixedZone TimeClip_def msPerDay_def)
  have r: "(1900 :: int) \<le> 2023 \<and> (2023 :: int) \<le> 2100 \<and> (1 :: int) \<le> 2 \<and> (2 :: int) \<le> 12
           \<and> (1 :: int) \<le> 29 \<and> (29 :: int) \<le> 31"
    by simp
  have k: "\<not> 29 \<le> DaysInMonth 2023 (2 - 1)"
    by (simp add: DaysInMonth_def DaysInYear_def)
  note t = SanitizeDate_accepts_exactly [OF tz]
  from t [where s = "''20240229''" and now = 1793712720000] a n
  have x: "SanitizeDate (fixedZone 3600000) 1793712720000 ''20240229'' = Some 1709161200000
           \<and> getFullYear (fixedZone 3600000)
               (SanitizeDate (fixedZone 3600000) 1793712720000 ''20240229'') = Some 2024
           \<and> getMonth (fixedZone 3600000)
               (SanitizeDate (fixedZone 3600000) 1793712720000 ''20240229'') = Some 1
           \<and> getDate (fixedZone 3600000)
               (SanitizeDate (fixedZone 3600000) 1793712720000 ''20240229'') = Some 29"
    by auto
  from t [where s = "''20230229''" and now = 1793712720000] b
  have y: "SanitizeDate (fixedZone 3600000) 1793712720000 ''20230229'' = Some 1793712720000"
    by simp
  from t [where s = "''20261332''" and now = 1793712720000] c
  have z: "SanitizeDate (fixedZone 3600000) 1793712720000 ''20261332'' = Some 1793712720000"
    by simp
  from t [where s = "''20230229''" and now = 1793712720000] r k
  have w: "getMonth (fixedZone 3600000)
             (newDate (fixedZone 3600000) (Some 2023) (Some (2 - 1)) (Some 29)) \<noteq> Some (2 - 1)"
    by blast
  from tz x y z w show ?thesis by blast
qed




text \<open>
  Claim C6 (fails on the code).  For a start date that falls back to the clock reading,
  \<open>getDaysBetween\<close> compares the UTC day of the clock with its local day.  At 23:30 UTC the
  request \<^verbatim>\<open>/rssbible/ot/esv/today/1/feed.rss\<close> yields no item on a server in the zone
  UTC and one item on a server one hour east of it.  (For a start date that
  \<open>SanitizeDate\<close> accepts the items do not depend on the zone, as long as the zones have
  constant offsets: lemma \<open>valid_start_date_zone_independent\<close>.)
\<close>

theorem fallback_date_depends_on_zone:
  "BuildRSSFeedItems demoResources (fixedZone 0) 1767310200000 (SanitizePlan ''ot'')
     (SanitizeTranslation demoResources ''esv'')
     (SanitizeDate (fixedZone 0) 1767310200000 ''today'')
     (SanitizeChapters ''1'') = Inr []
   \<and> BuildRSSFeedItems demoResources (fixedZone 3600000) 1767310200000 (SanitizePlan ''ot'')
       (SanitizeTranslation demoResources ''esv'')
     (SanitizeDate (fixedZone 3600000) 1767310200000 ''today'')
       (SanitizeChapters ''1'')
     = Inr [\<lparr>RSSItem.title = ''Genesis 1'', RSSItem.description = ''Day 1 of OT plan in ESV'',
              url = ''https://www.biblegateway.com/passage/?search=Genesis%201&version=ESV'',
              author = ''Bible Gateway'', date = Some 1767223800000\<rparr>]"
  using fallback_run_utc fallback_run_plus_one_hour by blast

subsection \<open>Rendering\<close>

text \<open>
  Claim C2.  \<open>escapeXML\<close> replaces each of the five reserved characters by its entity and
  leaves every other character alone, and every text field of the rendered feed goes
  through it.  Hence, whatever the metadata strings and the item fields contain: the
  rendered feed has exactly the \<^verbatim>\<open><\<close>, \<^verbatim>\<open>>\<close> and double quotes of its fixed template (32,
  32 and 14, and 14, 14 and 2 more for each item), it has no apostrophe, and each of its
  ampersands opens one of the five entities.
\<close>

theorem rendered_feed_escaped:
  "escapeXML s = concat (map xmlEntity s)
   \<and> count_list (generateRSSXML m items) CHR ''<'' = 32 + 14 * length items
   \<and> count_list (generateRSSXML m items) CHR ''>'' = 32 + 14 * length items
   \<and> count_list (generateRSSXML m items) (CHR 0x22) = 14 + 2 * length items
   \<and> count_list (generateRSSXML m items) (CHR 0x27) = 0
   \<and> ampersandsEscaped (generateRSSXML m items)"
  using escapeXML_eq[of s] generateRSSXML_counts[of m items]
    ampersandsEscaped_generateRSSXML[of m items]
  by blast

text \<open>
  Claim C3 (fails on the code).  The route is
  \<^verbatim>\<open>/rssbible/{plan}/{translation}/{startDate}/{chapters}/feed.rss\<close>, but the handler
  builds the self link with the start date before the translation.  For the request
  \<^verbatim>\<open>/rssbible/ot/esv/20260101/1/feed.rss\<close> the embedded link is
  \<^verbatim>\<open>/rssbible/ot/20260101/ESV/1/feed.rss\<close>, which the route reads as translation
  \<^verbatim>\<open>20260101\<close> and start date \<^verbatim>\<open>ESV\<close>.
\<close>

theorem self_link_segments_swapped:
  "matchRoute ''/rssbible/ot/esv/20260101/1/feed.rss'' = Some (''ot'', ''esv'', ''20260101'', ''1'')
   \<and> feedUrl (feedMetadata demoResources (fixedZone 0) 1793712720000 ''ot'' ''esv''
                ''20260101'' ''1'')
       = ''https://www.bibleplanfeed.com/rssbible/ot/20260101/ESV/1/feed.rss''
   \<and> matchRoute ''/rssbible/ot/20260101/ESV/1/feed.rss''
       = Some (''ot'', ''20260101'', ''ESV'', ''1'')"
proof -
  have r1: "matchRoute ''/rssbible/ot/esv/20260101/1/feed.rss''
            = Some (''ot'', ''esv'', ''20260101'', ''1'')"
    by code_simp
  have r2: "matchRoute ''/rssbible/ot/20260101/ESV/1/feed.rss''
            = Some (''ot'', ''20260101'', ''ESV'', ''1'')"
    by code_simp
  have v: "validCalendarDate ''20260101'' = Some (2026, 1, 1)"
    by code_simp
  have tz: "midnight_ok (fixedZone 0)"
    by (rule midnight_ok_fixedZone) (simp add: msPerDay_def)
  have sd: "SanitizeDate (fixedZone 0) 1793712720000 ''20260101''
            = Some (UTC (fixedZone 0) (MakeDate (MakeDay 2026 0 1) 0))"
    using SanitizeDate_eq[OF tz, of 1793712720000 "''20260101''"] by (simp add: v)
  have f: "formatDateToyyyyMMdd (fixedZone 0) (UTC (fixedZone 0) (MakeDate (MakeDay 2026 0 1) 0))
           = ''20260101''"
  proof -
    have "(1 :: int) \<le> DaysInMonth 2026 0" by (simp add: DaysInMonth_def)
    from formatDateToyyyyMMdd_of_date[OF _ _ _ this tz]
    have "formatDateToyyyyMMdd (fixedZone 0) (UTC (fixedZone 0) (MakeDate (MakeDay 2026 0 1) 0))
          = NumberToString 2026 @ padStart (NumberToString (0 + 1)) 2 CHR ''0''
            @ padStart (NumberToString 1) 2 CHR ''0''"
      by simp
    also have "\<dots> = ''20260101''" by code_simp
    finally show ?thesis .
  qed
  have s: "SanitizePlan ''ot'' = ''ot''" "SanitizeTranslation demoResources ''esv'' = ''ESV''"
    "NumberToString (SanitizeChapters ''1'') = ''1''"
    by code_simp+
  have "feedUrl (feedMetadata demoResources (fixedZone 0) 1793712720000 ''ot'' ''esv''
                ''20260101'' ''1'')
        = ''https://www.bibleplanfeed.com/rssbible/ot/20260101/ESV/1/feed.rss''"
    by (simp add: feedMetadata_def Let_def sd f s)
  with r1 r2 show ?thesis by blast
qed

subsection \<open>Chapters per day\<close>

text \<open>
  Claim C8.  \<open>SanitizeChapters\<close> answers 1 for a string of more than two characters, for a
  string that \<open>parseInt\<close> reads as \<^verbatim>\<open>NaN\<close>, and for a parsed integer outside 1 to 99;
  otherwise it answers the parsed integer.  The answer always lies between 1 and 99, and
  both \<^verbatim>\<open>"0"\<close> and \<^verbatim>\<open>"100"\<close> give 1.
\<close>

theorem SanitizeChapters_fallback:
  "(2 < length s \<longrightarrow> SanitizeChapters s = 1)
   \<and> (parseInt s 10 = None \<longrightarrow> SanitizeChapters s = 1)
   \<and> (\<forall>r. parseInt s 10 = Some r \<and> (r < 1 \<or> 99 < r) \<longrightarrow> SanitizeChapters s = 1)
   \<and> (\<forall>r. length s \<le> 2 \<and> parseInt s 10 = Some r \<and> 1 \<le> r \<and> r \<le> 99
          \<longrightarrow> SanitizeChapters s = r)
   \<and> 1 \<le> SanitizeChapters s \<and> SanitizeChapters s \<le> 99
   \<and> SanitizeChapters ''0'' = 1 \<and> SanitizeChapters ''100'' = 1"
proof -
  have zero: "SanitizeChapters ''0'' = 1"
    by code_simp
  have hundred: "SanitizeChapters ''100'' = 1"
    by (simp add: SanitizeChapters_def)
  show ?thesis
    using zero hundred by (auto simp add: SanitizeChapters_def split: option.splits)
qed

theorem SanitizeChapters_fallback_witness:
  "SanitizeChapters ''123'' = 1 \<and> SanitizeChapters ''x'' = 1 \<and> SanitizeChapters ''-5'' = 1
   \<and> SanitizeChapters ''42'' = 42"
proof -
  have long: "2 < length ''123''"
    by simp
  have nan: "parseInt ''x'' 10 = None"
    by code_simp
  have low: "parseInt ''-5'' 10 = Some (- 5) \<and> ((- 5 :: int) < 1 \<or> (99 :: int) < - 5)"
    by code_simp
  have good: "length ''42'' \<le> 2 \<and> parseInt ''42'' 10 = Some 42 \<and> (1 :: int) \<le> 42
              \<and> (42 :: int) \<le> 99"
    by code_simp
  from long SanitizeChapters_fallback [of "''123''"]
  have a: "SanitizeChapters ''123'' = 1" by blast
  from nan SanitizeChapters_fallback [of "''x''"]
  have b: "SanitizeChapters ''x'' = 1" by blast
  from low SanitizeChapters_fallback [of "''-5''"]
  have c: "SanitizeChapters ''-5'' = 1" by blast
  from good SanitizeChapters_fallback [of "''42''"]
  have d: "SanitizeChapters ''42'' = 42" by blast
  from a b c d show ?thesis by simp
qed

end
